theory Spec2Isabelle
  imports Complex_Main "HOL-Library.Word"
begin

section \<open>The tau realtime audio engine (src/tau/tau.c)\<close>

text \<open>
  A shallow embedding of the engine of \<^verbatim>\<open>src/tau/tau.c\<close>: the state-variable filter, the
  mixer channel, the sample slot, the synth voice, the subscriber list and the command
  interpreter \<^verbatim>\<open>process_command\<close>, together with the OSC handler \<^verbatim>\<open>osc_handle_mapped\<close>.

  Conventions of the embedding.
  \<^item> A C \<^verbatim>\<open>float\<close> is a \<^typ>\<open>real\<close>: rounding, infinities, negative zero and NaN are not
    modelled. \<^verbatim>\<open>tanf\<close>, \<^verbatim>\<open>expf\<close>, \<^verbatim>\<open>sinf\<close>, \<^verbatim>\<open>sqrtf\<close> are the real functions.
  \<^item> An \<^verbatim>\<open>_Atomic\<close> field is a plain field: each function of the source runs to completion
    on the state it is given (one thread at a time).
  \<^item> A C \<^verbatim>\<open>int\<close> used as a flag keeps its type \<^typ>\<open>int\<close> (zero is false).
  \<^item> A mutated struct is passed in and returned updated.
\<close>

subsection \<open>Constants and small utilities\<close>

definition NUM_CHANNELS :: nat where "NUM_CHANNELS = 4"
definition NUM_SLOTS :: nat where "NUM_SLOTS = 16"
definition NUM_VOICES :: nat where "NUM_VOICES = 8"
definition MAX_SUBSCRIBERS :: nat where "MAX_SUBSCRIBERS = 32"
definition TWO_PI :: real where "TWO_PI = 2 * pi"

definition clampf :: "real \<Rightarrow> real \<Rightarrow> real \<Rightarrow> real" where
  "clampf x lo hi = (if x < lo then lo else (if x > hi then hi else x))"

definition clampi :: "int \<Rightarrow> int \<Rightarrow> int \<Rightarrow> int" where
  "clampi v lo hi = (if v < lo then lo else (if v > hi then hi else v))"

text \<open>\<^verbatim>\<open>fmaxf\<close> of the C library, on numbers.\<close>

definition fmaxf :: "real \<Rightarrow> real \<Rightarrow> real" where
  "fmaxf a b = (if a < b then b else a)"

subsection \<open>State-variable filter\<close>

definition F_OFF :: int where "F_OFF = 0"
definition F_LP :: int where "F_LP = 1"
definition F_HP :: int where "F_HP = 2"
definition F_BP :: int where "F_BP = 3"

record SVF =
  f_type :: int
  f_cutoff :: real
  f_q :: real
  ic1eq :: real
  ic2eq :: real
  f_g :: real
  f_k :: real
  f_sr :: real
  prev_cutoff :: real
  prev_q :: real

definition svf_init :: "real \<Rightarrow> SVF" where
  "svf_init sr0 = \<lparr> f_type = F_OFF, f_cutoff = 1000, f_q = 0.7071,
     ic1eq = 0, ic2eq = 0, f_g = 0, f_k = 0, f_sr = sr0,
     prev_cutoff = - 1, prev_q = - 1 \<rparr>"

definition svf_update_coeffs :: "SVF \<Rightarrow> SVF" where
  "svf_update_coeffs f =
     (let cutoff = f_cutoff f;
          q = clampf (f_q f) 0.1 20
      in if cutoff \<noteq> prev_cutoff f \<or> q \<noteq> prev_q f
         then (let w = pi * (cutoff / (f_sr f * 0.5))
               in f\<lparr> f_g := tan w, f_k := 1 / q, prev_cutoff := cutoff, prev_q := q \<rparr>)
         else f)"

text \<open>The two integrator outputs computed by one call, from the coefficients in \<open>f\<close>.\<close>

definition svf_v1 :: "SVF \<Rightarrow> real \<Rightarrow> real" where
  "svf_v1 f v0 = (ic1eq f + f_g f * (v0 - ic2eq f)) / (1 + f_g f * (f_g f + f_k f))"

definition svf_v2 :: "SVF \<Rightarrow> real \<Rightarrow> real" where
  "svf_v2 f v0 = ic2eq f + f_g f * svf_v1 f v0"

definition svf_process :: "SVF \<Rightarrow> real \<Rightarrow> real \<times> SVF" where
  "svf_process f x =
     (let type = f_type f
      in if type = F_OFF then (x, f)
         else (let f1 = svf_update_coeffs f;
                   k = f_k f1;
                   v0 = x;
                   v1 = svf_v1 f1 v0;
                   v2 = svf_v2 f1 v0;
                   f2 = f1\<lparr> ic1eq := 2 * v1 - ic1eq f1, ic2eq := 2 * v2 - ic2eq f1 \<rparr>
               in if type = F_LP then (v2, f2)
                  else if type = F_HP then (v0 - k * v1 - v2, f2)
                  else if type = F_BP then (v1, f2)
                  else (v0, f2)))"

subsection \<open>Mixer channel\<close>

record Channel =
  c_gain :: real
  c_pan :: real
  filt :: SVF

definition channel_init :: "real \<Rightarrow> Channel" where
  "channel_init sr0 = \<lparr> c_gain = 1, c_pan = 0, filt = svf_init sr0 \<rparr>"

text \<open>\<^verbatim>\<open>channel_stereo\<close> adds into \<^verbatim>\<open>*L\<close> and \<^verbatim>\<open>*R\<close>: the pair \<open>(L, R)\<close> is passed in and returned.\<close>

definition channel_stereo :: "Channel \<Rightarrow> real \<Rightarrow> real \<times> real \<Rightarrow> Channel \<times> real \<times> real" where
  "channel_stereo c mono_in LR =
     (let g = c_gain c;
          p = clampf (c_pan c) (- 1) 1;
          (y, f') = svf_process (filt c) mono_in;
          m = y * g;
          lgain = sqrt (0.5 * (1 - p));
          rgain = sqrt (0.5 * (1 + p))
      in (c\<lparr> filt := f' \<rparr>, fst LR + m * lgain, snd LR + m * rgain))"

subsection \<open>Sample slot\<close>

text \<open>
  \<^verbatim>\<open>data\<close> is \<open>None\<close> for the NULL pointer and \<open>Some buf\<close> for an allocated buffer, the
  list \<open>buf\<close> having the allocated number of samples. \<^verbatim>\<open>length\<close> and \<^verbatim>\<open>pos\<close> are
  \<^verbatim>\<open>uint32_t\<close>. The \<^verbatim>\<open>ma_decoder\<close> field is opaque and only its flag \<^verbatim>\<open>haveDecoder\<close> is kept.
\<close>

record SampleSlot =
  s_assignedCh :: int
  loaded :: int
  playing :: int
  loop :: int
  s_gain :: real
  data :: "real list option"
  s_length :: "32 word"
  pos :: "32 word"
  haveDecoder :: int

definition slot_init :: SampleSlot where
  "slot_init = \<lparr> s_assignedCh = 0, loaded = 0, playing = 0, loop = 0, s_gain = 1,
     data = None, s_length = 0, pos = 0, haveDecoder = 0 \<rparr>"

definition slot_free :: "SampleSlot \<Rightarrow> SampleSlot" where
  "slot_free s =
     (let s1 = (if data s \<noteq> None then s\<lparr> data := None \<rparr> else s);
          s2 = (if haveDecoder s1 \<noteq> 0 then s1\<lparr> haveDecoder := 0 \<rparr> else s1)
      in s2\<lparr> loaded := 0, playing := 0 \<rparr>)"

text \<open>
  What the external decoder (miniaudio) and \<^verbatim>\<open>malloc\<close> do for one path: whether
  \<^verbatim>\<open>ma_decoder_init_file\<close> and \<^verbatim>\<open>ma_decoder_get_length_in_pcm_frames\<close> succeed, the frame
  count and channel count they report, the frame counts \<^verbatim>\<open>got\<close> of the successive
  \<^verbatim>\<open>ma_decoder_read_pcm_frames\<close> calls (0 once the list is used up), the interleaved
  samples they leave in \<^verbatim>\<open>tmp\<close>, and whether each of the two \<^verbatim>\<open>malloc\<close> calls succeeds.
\<close>

record decoder_env =
  init_ok :: bool
  length_ok :: bool
  dec_frames :: nat
  outputChannels :: nat
  malloc_tmp_ok :: bool
  read_chunks :: "nat list"
  tmp_pcm :: "nat \<Rightarrow> real"
  malloc_data_ok :: bool

text \<open>The loop \<^verbatim>\<open>while (read < frames) { ...; if (got==0) break; read += got; }\<close>.\<close>

fun read_loop :: "nat \<Rightarrow> nat \<Rightarrow> nat list \<Rightarrow> nat" where
  "read_loop frames rd [] = rd"
| "read_loop frames rd (got # rest) =
     (if rd < frames then (if got = 0 then rd else read_loop frames (rd + got) rest) else rd)"

text \<open>The mono downmix: sample \<open>i\<close> is the mean of the \<open>chn\<close> interleaved samples of frame \<open>i\<close>.\<close>

definition downmix :: "(nat \<Rightarrow> real) \<Rightarrow> nat \<Rightarrow> nat \<Rightarrow> real list" where
  "downmix tmp chn len =
     map (\<lambda>i. (\<Sum>c \<leftarrow> [0..<chn]. tmp (i * chn + c)) / real chn) [0..<len]"

text \<open>\<^verbatim>\<open>slot_load_path\<close> returns the C return code and the slot.\<close>

definition slot_load_path :: "SampleSlot \<Rightarrow> decoder_env \<Rightarrow> int \<times> SampleSlot" where
  "slot_load_path s0 d =
     (let s = slot_free s0
      in if \<not> init_ok d then (- 1, s)
         else (let s = s\<lparr> haveDecoder := 1 \<rparr>
               in if \<not> length_ok d then (- 2, slot_free s)
                  else if \<not> malloc_tmp_ok d then (- 3, slot_free s)
                  else (let rd = read_loop (dec_frames d) 0 (read_chunks d);
                            s = s\<lparr> s_length := word_of_nat rd \<rparr>
                        in if \<not> malloc_data_ok d then (- 4, slot_free (s\<lparr> data := None \<rparr>))
                           else (0, s\<lparr> data := Some (downmix (tmp_pcm d) (outputChannels d)
                                                        (unat (s_length s))),
                                       pos := 0, loaded := 1 \<rparr>))))"

text \<open>
  \<^verbatim>\<open>slot_tick\<close> reads \<^verbatim>\<open>s->data[pos]\<close>. A read at an index that is not inside the allocated
  buffer is undefined behaviour in C: the model returns \<open>None\<close> there.
\<close>

definition slot_emit :: "SampleSlot \<Rightarrow> 32 word \<Rightarrow> (real \<times> SampleSlot) option" where
  "slot_emit s p =
     (let g = s_gain s
      in case data s of
           None \<Rightarrow> None
         | Some buf \<Rightarrow>
             if unat p < length buf then Some (buf ! unat p * g, s\<lparr> pos := p + 1 \<rparr>) else None)"

definition slot_tick :: "SampleSlot \<Rightarrow> (real \<times> SampleSlot) option" where
  "slot_tick s =
     (if playing s = 0 \<or> loaded s = 0 \<or> data s = None then Some (0, s)
      else (let p = pos s
            in if p \<ge> s_length s
               then (if loop s \<noteq> 0 then slot_emit (s\<lparr> pos := 0 \<rparr>) 0
                     else Some (0, s\<lparr> playing := 0, pos := 0 \<rparr>))
               else slot_emit s p))"

text \<open>\<open>n\<close> successive ticks: the outputs in order and the final slot.\<close>

fun slot_ticks :: "nat \<Rightarrow> SampleSlot \<Rightarrow> (real list \<times> SampleSlot) option" where
  "slot_ticks 0 s = Some ([], s)"
| "slot_ticks (Suc n) s =
     (case slot_tick s of
        None \<Rightarrow> None
      | Some (y, s') \<Rightarrow>
          (case slot_ticks n s' of None \<Rightarrow> None | Some (ys, s'') \<Rightarrow> Some (y # ys, s'')))"

subsection \<open>Synth voice\<close>

definition W_SINE :: int where "W_SINE = 0"
definition W_PULSE :: int where "W_PULSE = 1"

text \<open>\<^verbatim>\<open>spikes\<close> is an \<^verbatim>\<open>_Atomic int\<close>: a 32-bit word read as a signed value.\<close>

record Voice =
  on :: int
  wave :: int
  freq :: real
  v_gain :: real
  v_assignedCh :: int
  tauA :: real
  tauB :: real
  dutyBias :: real
  spikes :: "32 word"
  phase :: real
  v_sr :: real
  Astate :: real
  Bstate :: real

definition voice_init :: "real \<Rightarrow> Voice" where
  "voice_init sr0 = \<lparr> on = 0, wave = W_SINE, freq = 220, v_gain = 0.2, v_assignedCh = 0,
     tauA = 0.005, tauB = 0.020, dutyBias = 0.5, spikes = 0, phase = 0, v_sr = sr0,
     Astate = 0, Bstate = 0 \<rparr>"

text \<open>The first half of \<^verbatim>\<open>voice_tick\<close> for a voice that is on: take-and-zero the spike
  counter, add a positive count to both registers, then decay both registers.

  The decay factors are the real exponentials, which are below 1 for every time constant.
  The \<^verbatim>\<open>expf\<close> of the code rounds its result to binary32: for a time constant with
  \<open>tau * sr\<close> above about \<open>2^25\<close> its result is exactly \<^verbatim>\<open>1.0f\<close> and the register does not
  decay in the code. What is proved of the decay below is proved in exact arithmetic.\<close>

definition voice_drain :: "Voice \<Rightarrow> Voice" where
  "voice_drain v =
     (let s = sint (spikes v);
          v = v\<lparr> spikes := 0 \<rparr>
      in if s > 0 then v\<lparr> Astate := Astate v + real_of_int s, Bstate := Bstate v + real_of_int s \<rparr>
         else v)"

definition voice_decay :: "Voice \<Rightarrow> Voice" where
  "voice_decay v =
     (let ta = fmaxf (1 / 10000) (tauA v);
          tb = fmaxf (1 / 10000) (tauB v);
          da = exp (- 1 / (ta * v_sr v));
          db = exp (- 1 / (tb * v_sr v))
      in v\<lparr> Astate := Astate v * da, Bstate := Bstate v * db \<rparr>)"

text \<open>The local \<^verbatim>\<open>duty\<close> of \<^verbatim>\<open>voice_tick\<close>, from the registers after the decay.\<close>

definition voice_duty :: "Voice \<Rightarrow> real" where
  "voice_duty v = clampf (dutyBias v + 0.25 * (Astate v - Bstate v)) 0.01 0.99"

definition voice_tick :: "Voice \<Rightarrow> real \<times> Voice" where
  "voice_tick v0 =
     (if on v0 = 0 then (0, v0)
      else (let v = voice_drain v0;
                f = fmaxf 1 (freq v);
                g = v_gain v;
                w = wave v;
                v = voice_decay v;
                duty = voice_duty v;
                ph = phase v + f / v_sr v;
                v = v\<lparr> phase := (if ph \<ge> 1 then ph - 1 else ph) \<rparr>;
                y = (if w = W_SINE then sin (TWO_PI * phase v)
                     else (if phase v < duty then 1 else - 1))
            in (y * g, v)))"

text \<open>The voice after \<open>n\<close> ticks.\<close>

fun voice_ticks :: "nat \<Rightarrow> Voice \<Rightarrow> Voice" where
  "voice_ticks 0 v = v"
| "voice_ticks (Suc n) v = voice_ticks n (snd (voice_tick v))"

subsection \<open>Engine\<close>

record Engine =
  sr :: "32 word"
  framesPerBuffer :: "32 word"
  masterGain :: real
  ch :: "Channel list"
  slots :: "SampleSlot list"
  voices :: "Voice list"

text \<open>\<^verbatim>\<open>engine_init\<close>, without the audio device.\<close>

definition engine_init :: "32 word \<Rightarrow> 32 word \<Rightarrow> Engine" where
  "engine_init sr0 frames =
     \<lparr> sr = sr0, framesPerBuffer = frames, masterGain = 0.8,
       ch = replicate NUM_CHANNELS (channel_init (real (unat sr0))),
       slots = replicate NUM_SLOTS slot_init,
       voices = replicate NUM_VOICES (voice_init (real (unat sr0))) \<rparr>"

text \<open>The arrays of the engine have their declared sizes.\<close>

definition engine_ok :: "Engine \<Rightarrow> bool" where
  "engine_ok E \<longleftrightarrow>
     length (ch E) = NUM_CHANNELS \<and> length (slots E) = NUM_SLOTS \<and> length (voices E) = NUM_VOICES"

subsection \<open>C library functions used by the command interpreter\<close>

text \<open>
  The functions of the C library that \<^verbatim>\<open>process_command\<close> calls, on strings without the
  terminating NUL. \<^verbatim>\<open>strcmp(a, b) == 0\<close> is equality of strings.
\<close>

definition isspace :: "char \<Rightarrow> bool" where
  "isspace c \<longleftrightarrow> c \<in> set [CHR '' '', CHR 0x09, CHR 0x0A, CHR 0x0B, CHR 0x0C, CHR 0x0D]"

definition isdigit :: "char \<Rightarrow> bool" where
  "isdigit c \<longleftrightarrow> c \<in> set ''0123456789''"

definition digit_val :: "char \<Rightarrow> nat" where
  "digit_val c = (of_char c :: nat) - 48"

definition digits_val :: "string \<Rightarrow> nat" where
  "digits_val ds = foldl (\<lambda>a c. 10 * a + digit_val c) 0 ds"

text \<open>\<^verbatim>\<open>atoi\<close>: white space, an optional sign, decimal digits; 0 when there is no digit.
  (A value outside the range of \<^verbatim>\<open>int\<close> is undefined in C; the model keeps the number.)\<close>

definition atoi :: "string \<Rightarrow> int" where
  "atoi s =
     (case dropWhile isspace s of
        [] \<Rightarrow> 0
      | c # r \<Rightarrow>
          if c = CHR ''-'' then - int (digits_val (takeWhile isdigit r))
          else if c = CHR ''+'' then int (digits_val (takeWhile isdigit r))
          else int (digits_val (takeWhile isdigit (c # r))))"

text \<open>
  \<^verbatim>\<open>atof\<close> on decimal notation: white space, an optional sign, digits with an optional
  fraction, an optional exponent; 0 when the mantissa has no digit. The hexadecimal
  notation and the words \<^verbatim>\<open>inf\<close> and \<^verbatim>\<open>nan\<close> that the C function also reads are not modelled.
\<close>

definition atof_exponent :: "string \<Rightarrow> int" where
  "atof_exponent r =
     (case r of
        [] \<Rightarrow> 0
      | e # r1 \<Rightarrow>
          if e = CHR ''e'' \<or> e = CHR ''E'' then
            (case r1 of
               [] \<Rightarrow> 0
             | c # r2 \<Rightarrow>
                 if c = CHR ''-'' then - int (digits_val (takeWhile isdigit r2))
                 else if c = CHR ''+'' then int (digits_val (takeWhile isdigit r2))
                 else int (digits_val (takeWhile isdigit r1)))
          else 0)"

definition atof_unsigned :: "string \<Rightarrow> real" where
  "atof_unsigned t =
     (let ip = takeWhile isdigit t;
          r = dropWhile isdigit t;
          fp = (case r of [] \<Rightarrow> [] | c # r1 \<Rightarrow> if c = CHR ''.'' then takeWhile isdigit r1 else []);
          r' = (case r of [] \<Rightarrow> [] | c # r1 \<Rightarrow> if c = CHR ''.'' then dropWhile isdigit r1 else r)
      in if ip = [] \<and> fp = [] then 0
         else (real (digits_val ip) + real (digits_val fp) / 10 ^ length fp)
              * 10 powi atof_exponent r')"

definition atof :: "string \<Rightarrow> real" where
  "atof s =
     (case dropWhile isspace s of
        [] \<Rightarrow> 0
      | c # r \<Rightarrow>
          if c = CHR ''-'' then - atof_unsigned r
          else if c = CHR ''+'' then atof_unsigned r
          else atof_unsigned (c # r))"

text \<open>\<^verbatim>\<open>%d\<close> and \<^verbatim>\<open>%.Nf\<close> of \<^verbatim>\<open>printf\<close>.\<close>

fun show_nat :: "nat \<Rightarrow> string" where
  "show_nat n = (if n < 10 then [''0123456789'' ! n]
                 else show_nat (n div 10) @ [''0123456789'' ! (n mod 10)])"

declare show_nat.simps [simp del]

definition show_int :: "int \<Rightarrow> string" where
  "show_int i = (if i < 0 then ''-'' @ show_nat (nat (- i)) else show_nat (nat i))"

definition round_half_even :: "real \<Rightarrow> nat" where
  "round_half_even r =
     (let fl = nat \<lfloor>r\<rfloor>; fr = r - real fl
      in if fr < 1 / 2 then fl else if fr > 1 / 2 then fl + 1
         else if even fl then fl else fl + 1)"

definition fmt_f :: "nat \<Rightarrow> real \<Rightarrow> string" where
  "fmt_f n x =
     (let m = round_half_even (\<bar>x\<bar> * 10 ^ n);
          ip = show_nat (m div 10 ^ n);
          fp = show_nat (m mod 10 ^ n)
      in (if x < 0 then ''-'' else [])
         @ ip @ (if n = 0 then [] else ''.'' @ replicate (n - length fp) CHR ''0'' @ fp))"

text \<open>\<^verbatim>\<open>snprintf(buf, sz, ...)\<close> keeps at most \<open>sz - 1\<close> characters.\<close>

definition snprintf :: "nat \<Rightarrow> string \<Rightarrow> string" where
  "snprintf sz txt = take (sz - 1) txt"

text \<open>The successive \<^verbatim>\<open>strtok(buf, " \t\n")\<close> calls: the maximal runs of non-delimiters.\<close>

definition is_delim :: "char \<Rightarrow> bool" where
  "is_delim c \<longleftrightarrow> c = CHR '' '' \<or> c = CHR 0x09 \<or> c = CHR 0x0A"

fun strtok_all :: "string \<Rightarrow> string \<Rightarrow> string list" where
  "strtok_all cur [] = (if cur = [] then [] else [cur])"
| "strtok_all cur (c # cs) =
     (if is_delim c then (if cur = [] then strtok_all [] cs else cur # strtok_all [] cs)
      else strtok_all (cur @ [c]) cs)"

text \<open>The head of \<^verbatim>\<open>process_command\<close>: copy at most 4095 characters of the C string
  \<^verbatim>\<open>cmd\<close> (it ends at its first NUL) and keep the first 32 tokens.\<close>

definition tokenize :: "string \<Rightarrow> string list" where
  "tokenize cmd = take 32 (strtok_all [] (take 4095 (takeWhile (\<lambda>c. c \<noteq> CHR 0x00) cmd)))"

subsection \<open>Datagram server: subscriber list and broadcast\<close>

text \<open>
  The outside world of one call: the size of \<^verbatim>\<open>sun_path\<close> in \<^verbatim>\<open>struct sockaddr_un\<close> (a
  constant of the platform's \<^verbatim>\<open>sys/un.h\<close>, 104 or 108), the result of \<^verbatim>\<open>sendto\<close> for a
  destination path, and what the decoder does for a file path.
\<close>

datatype send_result = Sent | Gone | Failed

record world =
  sun_path_size :: nat
  sendto :: "string \<Rightarrow> send_result"
  decoder :: "string \<Rightarrow> decoder_env"

text \<open>\<open>Gone\<close> stands for a negative return with \<^verbatim>\<open>errno\<close> one of ECONNREFUSED, ENOENT, ENOTCONN;
  \<open>Failed\<close> for a negative return with another \<^verbatim>\<open>errno\<close>.

  The server keeps \<^verbatim>\<open>sub_count\<close> entries in \<^verbatim>\<open>subscribers\<close>: the list of their \<^verbatim>\<open>sun_path\<close>.\<close>

record dgram_srv =
  subscribers :: "string list"
  running :: int

text \<open>The loop \<^verbatim>\<open>for (i = 0; i < sub_count; i++) if (strcmp(sun_path[i], path) == 0) return\<close>.\<close>

fun already_subscribed :: "string list \<Rightarrow> string \<Rightarrow> bool" where
  "already_subscribed [] path = False"
| "already_subscribed (p # ps) path = (if p = path then True else already_subscribed ps path)"

definition srv_add_subscriber :: "world \<Rightarrow> dgram_srv \<Rightarrow> string \<Rightarrow> dgram_srv" where
  "srv_add_subscriber w srv path =
     (if length (subscribers srv) \<ge> MAX_SUBSCRIBERS then srv
      else if already_subscribed (subscribers srv) path then srv
      else srv\<lparr> subscribers := subscribers srv @ [take (sun_path_size w - 1) path] \<rparr>)"

text \<open>Removing entry \<open>i\<close>: the later entries move down by one and the count drops.\<close>

definition remove_at :: "nat \<Rightarrow> 'a list \<Rightarrow> 'a list" where
  "remove_at i xs = take i xs @ drop (Suc i) xs"

text \<open>The loop of \<^verbatim>\<open>srv_broadcast\<close>, with the log of the \<^verbatim>\<open>sendto\<close> calls it makes
  (destination and datagram).\<close>

function broadcast_loop ::
  "world \<Rightarrow> string \<Rightarrow> string list \<Rightarrow> nat \<Rightarrow> (string \<times> string) list
     \<Rightarrow> string list \<times> (string \<times> string) list" where
  "broadcast_loop w event subs i sends =
     (if i < length subs
      then (if sendto w (subs ! i) = Gone
            then broadcast_loop w event (remove_at i subs) i (sends @ [(subs ! i, event)])
            else broadcast_loop w event subs (i + 1) (sends @ [(subs ! i, event)]))
      else (subs, sends))"
  by pat_completeness auto
termination
  by (relation "measure (\<lambda>(w, event, subs, i, sends). length subs - i)")
     (auto simp: remove_at_def)

declare broadcast_loop.simps [simp del]

definition srv_broadcast :: "world \<Rightarrow> dgram_srv \<Rightarrow> string \<Rightarrow> dgram_srv \<times> (string \<times> string) list" where
  "srv_broadcast w srv event =
     (let (subs, sends) = broadcast_loop w event (subscribers srv) 0 []
      in (srv\<lparr> subscribers := subs \<rparr>, sends))"

subsection \<open>The command interpreter\<close>

text \<open>
  The state that \<^verbatim>\<open>process_command\<close> works on is the two globals \<^verbatim>\<open>G\<close> and \<^verbatim>\<open>g_srv\<close>. One
  call yields the text left in \<^verbatim>\<open>response\<close> (the reply that \<^verbatim>\<open>dgram_thread\<close> sends to the
  issuer), the state, and the datagrams handed to \<^verbatim>\<open>sendto\<close> by \<^verbatim>\<open>srv_broadcast\<close>.
  \<open>RESP_SIZE\<close> is the \<^verbatim>\<open>resp_size\<close> that \<^verbatim>\<open>dgram_thread\<close> passes.
\<close>

record sys =
  G :: Engine
  g_srv :: dgram_srv

record cmd_result =
  response :: string
  st_out :: sys
  events :: "(string \<times> string) list"

definition RESP_SIZE :: nat where "RESP_SIZE = 4096"

definition reply :: "sys \<Rightarrow> string \<Rightarrow> cmd_result" where
  "reply st txt = \<lparr> response = snprintf RESP_SIZE txt, st_out = st, events = [] \<rparr>"

definition reply_broadcast :: "world \<Rightarrow> sys \<Rightarrow> string \<Rightarrow> string \<Rightarrow> cmd_result" where
  "reply_broadcast w st txt event =
     (let (srv', sends) = srv_broadcast w (g_srv st) (snprintf 256 event)
      in \<lparr> response = snprintf RESP_SIZE txt, st_out = st\<lparr> g_srv := srv' \<rparr>, events = sends \<rparr>)"

definition set_ch :: "sys \<Rightarrow> nat \<Rightarrow> Channel \<Rightarrow> sys" where
  "set_ch st i c = st\<lparr> G := (G st)\<lparr> ch := (ch (G st))[i := c] \<rparr> \<rparr>"

definition set_voice :: "sys \<Rightarrow> nat \<Rightarrow> Voice \<Rightarrow> sys" where
  "set_voice st i v = st\<lparr> G := (G st)\<lparr> voices := (voices (G st))[i := v] \<rparr> \<rparr>"

definition set_slot :: "sys \<Rightarrow> nat \<Rightarrow> SampleSlot \<Rightarrow> sys" where
  "set_slot st i s = st\<lparr> G := (G st)\<lparr> slots := (slots (G st))[i := s] \<rparr> \<rparr>"

text \<open>The branch \<^verbatim>\<open>MASTER <gain>\<close>.\<close>

definition cmd_master :: "world \<Rightarrow> sys \<Rightarrow> string list \<Rightarrow> cmd_result" where
  "cmd_master w st tokens =
     (if length tokens < 2 then reply st ''ERROR Missing gain value\<newline>''
      else (let gain = clampf (atof (tokens ! 1)) 0 10
            in reply_broadcast w (st\<lparr> G := (G st)\<lparr> masterGain := gain \<rparr> \<rparr>)
                 (''OK MASTER '' @ fmt_f 3 gain @ ''\<newline>'')
                 (''EVENT MASTER '' @ fmt_f 3 gain @ ''\<newline>'')))"

text \<open>The branch \<^verbatim>\<open>CH <n> <param> <value>\<close>.\<close>

definition cmd_ch :: "world \<Rightarrow> sys \<Rightarrow> string list \<Rightarrow> cmd_result" where
  "cmd_ch w st tokens =
     (let ntok = length tokens
      in if ntok < 3 then reply st ''ERROR CH <n> <param> <value>\<newline>''
         else (let chn = atoi (tokens ! 1)
               in if chn < 1 \<or> chn > int NUM_CHANNELS
                  then reply st (''ERROR Invalid channel '' @ show_int chn @ ''\<newline>'')
                  else (let i = nat (chn - 1); C = ch (G st) ! i
                        in if tokens ! 2 = ''GAIN'' then
                             (if ntok < 4 then reply st ''ERROR Missing gain value\<newline>''
                              else (let gain = clampf (atof (tokens ! 3)) 0 10
                                    in reply_broadcast w (set_ch st i (C\<lparr> c_gain := gain \<rparr>))
                                         (''OK CH '' @ show_int chn @ '' GAIN '' @ fmt_f 3 gain @ ''\<newline>'')
                                         (''EVENT CHANNEL '' @ show_int chn @ '' GAIN '' @ fmt_f 3 gain
                                            @ ''\<newline>'')))
                           else if tokens ! 2 = ''PAN'' then
                             (if ntok < 4 then reply st ''ERROR Missing pan value\<newline>''
                              else (let pan = clampf (atof (tokens ! 3)) (- 1) 1
                                    in reply_broadcast w (set_ch st i (C\<lparr> c_pan := pan \<rparr>))
                                         (''OK CH '' @ show_int chn @ '' PAN '' @ fmt_f 3 pan @ ''\<newline>'')
                                         (''EVENT CHANNEL '' @ show_int chn @ '' PAN '' @ fmt_f 3 pan
                                            @ ''\<newline>'')))
                           else if tokens ! 2 = ''FILTER'' then
                             (if ntok < 6 then reply st ''ERROR FILTER <type> <cutoff> <q>\<newline>''
                              else (let type = clampi (atoi (tokens ! 3)) F_OFF F_BP;
                                        cutoff = fmaxf 20 (atof (tokens ! 4));
                                        q = fmaxf 0.1 (atof (tokens ! 5))
                                    in reply
                                         (set_ch st i
                                            (C\<lparr> filt := (filt C)\<lparr> f_type := type, f_cutoff := cutoff,
                                                                  f_q := q \<rparr> \<rparr>))
                                         (''OK CH '' @ show_int chn @ '' FILTER '' @ show_int type @ '' ''
                                            @ fmt_f 1 cutoff @ '' '' @ fmt_f 3 q @ ''\<newline>'')))
                           else reply st (''ERROR Unknown CH param: '' @ tokens ! 2 @ ''\<newline>''))))"

text \<open>The branch \<^verbatim>\<open>VOICE <n> <cmd> [args...]\<close>.\<close>

definition cmd_voice :: "world \<Rightarrow> sys \<Rightarrow> string list \<Rightarrow> cmd_result" where
  "cmd_voice w st tokens =
     (let ntok = length tokens
      in if ntok < 3 then reply st ''ERROR VOICE <n> <cmd>\<newline>''
         else (let vi = atoi (tokens ! 1)
               in if vi < 1 \<or> vi > int NUM_VOICES
                  then reply st (''ERROR Invalid voice '' @ show_int vi @ ''\<newline>'')
                  else (let i = nat (vi - 1); V = voices (G st) ! i; c = tokens ! 2
                        in if c = ''ON'' then
                             reply_broadcast w (set_voice st i (V\<lparr> on := 1 \<rparr>))
                               (''OK VOICE '' @ show_int vi @ '' ON\<newline>'')
                               (''EVENT VOICE '' @ show_int vi @ '' ON\<newline>'')
                           else if c = ''OFF'' then
                             reply_broadcast w (set_voice st i (V\<lparr> on := 0 \<rparr>))
                               (''OK VOICE '' @ show_int vi @ '' OFF\<newline>'')
                               (''EVENT VOICE '' @ show_int vi @ '' OFF\<newline>'')
                           else if c = ''WAVE'' then
                             (if ntok < 4 then reply st ''ERROR Missing wave value\<newline>''
                              else (let wv = (if atoi (tokens ! 3) \<noteq> 0 then W_PULSE else W_SINE)
                                    in reply (set_voice st i (V\<lparr> wave := wv \<rparr>))
                                         (''OK VOICE '' @ show_int vi @ '' WAVE '' @ show_int wv
                                            @ ''\<newline>'')))
                           else if c = ''FREQ'' then
                             (if ntok < 4 then reply st ''ERROR Missing frequency\<newline>''
                              else (let fr = fmaxf 1 (atof (tokens ! 3))
                                    in reply (set_voice st i (V\<lparr> freq := fr \<rparr>))
                                         (''OK VOICE '' @ show_int vi @ '' FREQ '' @ fmt_f 2 fr
                                            @ ''\<newline>'')))
                           else if c = ''GAIN'' then
                             (if ntok < 4 then reply st ''ERROR Missing gain\<newline>''
                              else (let gain = clampf (atof (tokens ! 3)) 0 2
                                    in reply (set_voice st i (V\<lparr> v_gain := gain \<rparr>))
                                         (''OK VOICE '' @ show_int vi @ '' GAIN '' @ fmt_f 3 gain
                                            @ ''\<newline>'')))
                           else if c = ''CHAN'' then
                             (if ntok < 4 then reply st ''ERROR Missing channel\<newline>''
                              else (let chn = clampi (atoi (tokens ! 3)) 0 (int NUM_CHANNELS - 1)
                                    in reply (set_voice st i (V\<lparr> v_assignedCh := chn \<rparr>))
                                         (''OK VOICE '' @ show_int vi @ '' CHAN '' @ show_int chn
                                            @ ''\<newline>'')))
                           else if c = ''SPIKE'' then
                             reply (set_voice st i (V\<lparr> spikes := spikes V + 1 \<rparr>))
                               (''OK VOICE '' @ show_int vi @ '' SPIKE\<newline>'')
                           else if c = ''TAU'' then
                             (if ntok < 5 then reply st ''ERROR TAU <tau_a> <tau_b>\<newline>''
                              else (let ta = fmaxf (1 / 10000) (atof (tokens ! 3));
                                        tb = fmaxf (1 / 10000) (atof (tokens ! 4))
                                    in reply (set_voice st i (V\<lparr> tauA := ta, tauB := tb \<rparr>))
                                         (''OK VOICE '' @ show_int vi @ '' TAU '' @ fmt_f 4 ta @ '' ''
                                            @ fmt_f 4 tb @ ''\<newline>'')))
                           else reply st (''ERROR Unknown VOICE cmd: '' @ c @ ''\<newline>''))))"

text \<open>The path of \<^verbatim>\<open>SAMPLE <n> LOAD\<close>: the tokens from the fourth on, joined by single
  spaces into \<^verbatim>\<open>char path[1024]\<close>; \<open>None\<close> is the exit \<^verbatim>\<open>Path too long\<close>.\<close>

fun join_path :: "string \<Rightarrow> bool \<Rightarrow> string list \<Rightarrow> string option" where
  "join_path path first [] = Some path"
| "join_path path first (t # ts) =
     (if \<not> first \<and> length path + 1 \<ge> 1023 then None
      else (let path = (if first then path else path @ '' '')
            in if length path + length t \<ge> 1023 then None
               else join_path (path @ t) False ts))"

text \<open>The branch \<^verbatim>\<open>SAMPLE <n> <cmd> [args...]\<close>. In \<^verbatim>\<open>SEEK\<close> the conversion of a float to
  \<^verbatim>\<open>uint32_t\<close> truncates; a value that does not fit is undefined in C and wraps in the model.\<close>

definition cmd_sample :: "world \<Rightarrow> sys \<Rightarrow> string list \<Rightarrow> cmd_result" where
  "cmd_sample w st tokens =
     (let ntok = length tokens
      in if ntok < 3 then reply st ''ERROR SAMPLE <n> <cmd>\<newline>''
         else (let si = atoi (tokens ! 1)
               in if si < 1 \<or> si > int NUM_SLOTS
                  then reply st (''ERROR Invalid sample slot '' @ show_int si @ ''\<newline>'')
                  else (let i = nat (si - 1); S = slots (G st) ! i; c = tokens ! 2
                        in if c = ''LOAD'' then
                             (if ntok < 4 then reply st ''ERROR Missing path\<newline>''
                              else (case join_path [] True (drop 3 tokens) of
                                      None \<Rightarrow> reply st ''ERROR Path too long\<newline>''
                                    | Some path \<Rightarrow>
                                        (let (ret, S') = slot_load_path S (decoder w path)
                                         in if ret \<noteq> 0
                                            then reply (set_slot st i S')
                                                   (''ERROR Failed to load: '' @ path @ '' (code ''
                                                      @ show_int ret @ '')\<newline>'')
                                            else reply (set_slot st i S')
                                                   (''OK SAMPLE '' @ show_int si @ '' LOADED '' @ path
                                                      @ ''\<newline>''))))
                           else if c = ''TRIG'' then
                             (if loaded S = 0
                              then reply st (''ERROR Sample '' @ show_int si @ '' not loaded\<newline>'')
                              else reply_broadcast w (set_slot st i (S\<lparr> playing := 1, pos := 0 \<rparr>))
                                     (''OK SAMPLE '' @ show_int si @ '' TRIG\<newline>'')
                                     (''EVENT SAMPLE '' @ show_int si @ '' PLAYING\<newline>''))
                           else if c = ''STOP'' then
                             reply (set_slot st i (S\<lparr> playing := 0, pos := 0 \<rparr>))
                               (''OK SAMPLE '' @ show_int si @ '' STOP\<newline>'')
                           else if c = ''GAIN'' then
                             (if ntok < 4 then reply st ''ERROR Missing gain\<newline>''
                              else (let gain = clampf (atof (tokens ! 3)) 0 10
                                    in reply (set_slot st i (S\<lparr> s_gain := gain \<rparr>))
                                         (''OK SAMPLE '' @ show_int si @ '' GAIN '' @ fmt_f 3 gain
                                            @ ''\<newline>'')))
                           else if c = ''CHAN'' then
                             (if ntok < 4 then reply st ''ERROR Missing channel\<newline>''
                              else (let chn = clampi (atoi (tokens ! 3)) 0 (int NUM_CHANNELS - 1)
                                    in reply (set_slot st i (S\<lparr> s_assignedCh := chn \<rparr>))
                                         (''OK SAMPLE '' @ show_int si @ '' CHAN '' @ show_int chn
                                            @ ''\<newline>'')))
                           else if c = ''LOOP'' then
                             (if ntok < 4 then reply st ''ERROR Missing loop value (0 or 1)\<newline>''
                              else (let lp = (if atoi (tokens ! 3) \<noteq> 0 then 1 else 0)
                                    in reply (set_slot st i (S\<lparr> loop := lp \<rparr>))
                                         (''OK SAMPLE '' @ show_int si @ '' LOOP '' @ show_int lp
                                            @ ''\<newline>'')))
                           else if c = ''SEEK'' then
                             (if ntok < 4 then reply st ''ERROR Missing seek time\<newline>''
                              else if loaded S = 0
                              then reply st (''ERROR Sample '' @ show_int si @ '' not loaded\<newline>'')
                              else (let time = fmaxf 0 (atof (tokens ! 3));
                                        target = (word_of_nat (nat \<lfloor>time * real (unat (sr (G st)))\<rfloor>)
                                                    :: 32 word);
                                        target_pos = (if target \<ge> s_length S
                                                      then (if s_length S > 0 then s_length S - 1 else 0)
                                                      else target);
                                        actual_time = real (unat target_pos) / real (unat (sr (G st)))
                                    in reply (set_slot st i (S\<lparr> pos := target_pos \<rparr>))
                                         (''OK SAMPLE '' @ show_int si @ '' SEEK '' @ fmt_f 3 actual_time
                                            @ ''\<newline>'')))
                           else reply st (''ERROR Unknown SAMPLE cmd: '' @ c @ ''\<newline>''))))"

definition process_command :: "world \<Rightarrow> sys \<Rightarrow> string \<Rightarrow> cmd_result" where
  "process_command w st cmd =
     (let tokens = tokenize cmd; ntok = length tokens
      in if ntok = 0 then reply st ''ERROR Empty command\<newline>''
         else if tokens ! 0 = ''INIT'' then reply st ''OK READY\<newline>''
         else if tokens ! 0 = ''STATUS'' then reply st ''OK STATUS running\<newline>''
         else if tokens ! 0 = ''SUBSCRIBE'' then
           (if ntok < 2 then reply st ''ERROR Missing socket path\<newline>''
            else reply (st\<lparr> g_srv := srv_add_subscriber w (g_srv st) (tokens ! 1) \<rparr>)
                   ''OK Subscribed\<newline>'')
         else if tokens ! 0 = ''MASTER'' then cmd_master w st tokens
         else if tokens ! 0 = ''CH'' then cmd_ch w st tokens
         else if tokens ! 0 = ''VOICE'' then cmd_voice w st tokens
         else if tokens ! 0 = ''SAMPLE'' then cmd_sample w st tokens
         else if tokens ! 0 = ''QUIT'' then
           reply (st\<lparr> g_srv := (g_srv st)\<lparr> running := 0 \<rparr> \<rparr>) ''OK Shutting down\<newline>''
         else reply st (''ERROR Unknown command: '' @ tokens ! 0 @ ''\<newline>''))"

text \<open>A sequence of commands, each on the state the previous one left.\<close>

fun process_commands :: "world \<Rightarrow> sys \<Rightarrow> string list \<Rightarrow> sys" where
  "process_commands w st [] = st"
| "process_commands w st (c # cs) = process_commands w (st_out (process_command w st c)) cs"

subsection \<open>The OSC handler for mapped values\<close>

text \<open>
  \<^verbatim>\<open>sscanf(path, "/midi/mapped/%7[^/]/%63s", variant, semantic)\<close>: \<open>Some (variant, semantic)\<close>
  when both conversions succeed (the call returns 2), \<open>None\<close> otherwise.
\<close>

definition scan_mapped :: "string \<Rightarrow> (string \<times> string) option" where
  "scan_mapped path =
     (let pre = ''/midi/mapped/''
      in if take (length pre) path \<noteq> pre then None
         else (let r = drop (length pre) path;
                   variant = take 7 (takeWhile (\<lambda>c. c \<noteq> CHR ''/'') r);
                   r2 = drop (length variant) r
               in if variant = [] then None
                  else (case r2 of
                          [] \<Rightarrow> None
                        | c # r3 \<Rightarrow>
                            if c \<noteq> CHR ''/'' then None
                            else (let semantic = take 63 (takeWhile (\<lambda>c. \<not> isspace c)
                                                            (dropWhile isspace r3))
                                  in if semantic = [] then None else Some (variant, semantic)))))"

text \<open>\<^verbatim>\<open>osc_handle_mapped\<close> with the float argument \<^verbatim>\<open>argv[0]->f\<close>: the return code and the engine.\<close>

definition osc_handle_mapped :: "Engine \<Rightarrow> string \<Rightarrow> real \<Rightarrow> int \<times> Engine" where
  "osc_handle_mapped E path val =
     (case scan_mapped path of
        None \<Rightarrow> (1, E)
      | Some (variant, semantic) \<Rightarrow>
          (let chs = ch E
           in (0,
               if semantic = ''VOLUME_1'' then E\<lparr> ch := chs[0 := (chs ! 0)\<lparr> c_gain := val \<rparr>] \<rparr>
               else if semantic = ''VOLUME_2'' then E\<lparr> ch := chs[1 := (chs ! 1)\<lparr> c_gain := val \<rparr>] \<rparr>
               else if semantic = ''VOLUME_3'' then E\<lparr> ch := chs[2 := (chs ! 2)\<lparr> c_gain := val \<rparr>] \<rparr>
               else if semantic = ''VOLUME_4'' then E\<lparr> ch := chs[3 := (chs ! 3)\<lparr> c_gain := val \<rparr>] \<rparr>
               else if semantic = ''PAN_1'' then
                 E\<lparr> ch := chs[0 := (chs ! 0)\<lparr> c_pan := val * 2 - 1 \<rparr>] \<rparr>
               else if semantic = ''PAN_2'' then
                 E\<lparr> ch := chs[1 := (chs ! 1)\<lparr> c_pan := val * 2 - 1 \<rparr>] \<rparr>
               else if semantic = ''FILTER_CUTOFF'' then
                 (let cutoff = 100 + val * 7900
                  in E\<lparr> ch := chs[0 := (chs ! 0)\<lparr> filt := (filt (chs ! 0))\<lparr> f_cutoff := cutoff \<rparr> \<rparr>] \<rparr>)
               else if semantic = ''MASTER_VOLUME'' then E\<lparr> masterGain := val \<rparr>
               else E)))"

subsection \<open>Predicates and measures used by the theorems\<close>

text \<open>The buffer invariant of a sample slot: a slot without a buffer is not loaded, and a
  buffer has \<^verbatim>\<open>length\<close> samples.\<close>

definition slot_ok :: "SampleSlot \<Rightarrow> bool" where
  "slot_ok s \<longleftrightarrow>
     (case data s of None \<Rightarrow> loaded s = 0 | Some buf \<Rightarrow> length buf = unat (s_length s))"

text \<open>The ranges that the command interpreter keeps for the settings of a channel.\<close>

definition chan_in_range :: "Channel \<Rightarrow> bool" where
  "chan_in_range c \<longleftrightarrow>
     0 \<le> c_gain c \<and> c_gain c \<le> 10 \<and> - 1 \<le> c_pan c \<and> c_pan c \<le> 1
     \<and> 20 \<le> f_cutoff (filt c) \<and> 0.1 \<le> f_q (filt c)"

definition chans_in_range :: "Engine \<Rightarrow> bool" where
  "chans_in_range E \<longleftrightarrow> list_all chan_in_range (ch E)"

text \<open>The decay factors \<^verbatim>\<open>da\<close> and \<^verbatim>\<open>db\<close> that \<^verbatim>\<open>voice_tick\<close> computes from the settings of a
  voice, in exact arithmetic (the real exponential, not its binary32 rounding), and the
  distance between the duty cycle computed by the \<open>n\<close>-th tick and the duty bias.\<close>

definition decay_a :: "Voice \<Rightarrow> real" where
  "decay_a v = exp (- 1 / (fmaxf (1 / 10000) (tauA v) * v_sr v))"

definition decay_b :: "Voice \<Rightarrow> real" where
  "decay_b v = exp (- 1 / (fmaxf (1 / 10000) (tauB v) * v_sr v))"

definition duty_dev :: "nat \<Rightarrow> Voice \<Rightarrow> real" where
  "duty_dev n v = \<bar>voice_duty (voice_ticks n v) - dutyBias v\<bar>"

subsection \<open>Example states\<close>

text \<open>A filter with cutoff 1000 Hz at a sample rate of 8000 Hz and Q = 1 (so that both
  coefficients are 1), both integrator registers at 3, and a channel that owns it.\<close>

definition svf_demo :: "int \<Rightarrow> SVF" where
  "svf_demo t = \<lparr> f_type = t, f_cutoff = 1000, f_q = 1, ic1eq = 3, ic2eq = 3, f_g = 0, f_k = 0,
     f_sr = 8000, prev_cutoff = - 1, prev_q = - 1 \<rparr>"

definition channel_demo :: Channel where
  "channel_demo = \<lparr> c_gain = 2, c_pan = 1, filt = svf_demo F_BP \<rparr>"

text \<open>A loaded slot with gain 2 and the two samples 1/2 and 1/4, with the given playing
  flag, loop flag and cursor.\<close>

definition slot_demo :: "int \<Rightarrow> int \<Rightarrow> 32 word \<Rightarrow> SampleSlot" where
  "slot_demo pl lp p = \<lparr> s_assignedCh = 0, loaded = 1, playing = pl, loop = lp, s_gain = 2,
     data = Some [1 / 2, 1 / 4], s_length = 2, pos = p, haveDecoder = 1 \<rparr>"

text \<open>A decoder result for a file that cannot be opened, and one for a stereo file of two
  frames. A world in which \<^verbatim>\<open>/tmp/ok.wav\<close> is that stereo file, every other path fails to
  decode, and the endpoint \<^verbatim>\<open>/tmp/dead\<close> is gone. A system at its initial settings whose third
  slot is loaded and playing and which has three subscribers.\<close>

definition decoder_fail :: decoder_env where
  "decoder_fail = \<lparr> init_ok = False, length_ok = False, dec_frames = 0, outputChannels = 0,
     malloc_tmp_ok = False, read_chunks = [], tmp_pcm = (\<lambda>i. 0), malloc_data_ok = False \<rparr>"

definition decoder_good :: decoder_env where
  "decoder_good = \<lparr> init_ok = True, length_ok = True, dec_frames = 2, outputChannels = 2,
     malloc_tmp_ok = True, read_chunks = [2], tmp_pcm = (\<lambda>i. [1, 0, 1 / 2, 1 / 2] ! i),
     malloc_data_ok = True \<rparr>"

definition world_demo :: world where
  "world_demo = \<lparr> sun_path_size = 104,
     sendto = (\<lambda>p. if p = ''/tmp/dead'' then Gone else Sent),
     decoder = (\<lambda>p. if p = ''/tmp/ok.wav'' then decoder_good else decoder_fail) \<rparr>"

definition sys_demo :: sys where
  "sys_demo = \<lparr> G = (engine_init 48000 512)\<lparr> slots := (replicate 16 slot_init)[2 := slot_demo 1 0 1] \<rparr>,
     g_srv = \<lparr> subscribers = [''/tmp/a'', ''/tmp/dead'', ''/tmp/b''], running = 1 \<rparr> \<rparr>"

text \<open>A system whose subscriber list holds 32 endpoints.\<close>

definition sys_full :: sys where
  "sys_full = \<lparr> G = engine_init 48000 512,
     g_srv = \<lparr> subscribers = map (\<lambda>i. ''/tmp/s'' @ show_nat i) [0..<32], running = 1 \<rparr> \<rparr>"

text \<open>A voice at its initial settings, switched on, with one pending spike.\<close>

definition voice_spiked :: Voice where
  "voice_spiked = (voice_init 48000)\<lparr> on := 1, spikes := 1 \<rparr>"

text \<open>A decoder result for a file that opens and has no frame (both \<^verbatim>\<open>malloc\<close> calls
  return a buffer of 0 bytes), a world that holds it as \<^verbatim>\<open>/tmp/empty.wav\<close>, and the first slot
  after that file is loaded into it, loop is switched on and the slot is triggered.\<close>

definition decoder_empty :: decoder_env where
  "decoder_empty = \<lparr> init_ok = True, length_ok = True, dec_frames = 0, outputChannels = 1,
     malloc_tmp_ok = True, read_chunks = [], tmp_pcm = (\<lambda>i. 0), malloc_data_ok = True \<rparr>"

definition world_empty :: world where
  "world_empty = \<lparr> sun_path_size = 104, sendto = (\<lambda>p. Sent),
     decoder = (\<lambda>p. if p = ''/tmp/empty.wav'' then decoder_empty else decoder_fail) \<rparr>"

definition slot_empty_loop :: SampleSlot where
  "slot_empty_loop =
     slots (G (process_commands world_empty sys_demo
                 [''SAMPLE 1 LOAD /tmp/empty.wav'', ''SAMPLE 1 LOOP 1'', ''SAMPLE 1 TRIG''])) ! 0"

section \<open>Theorems\<close>

lemma clampf_id: "lo \<le> x \<Longrightarrow> x \<le> hi \<Longrightarrow> clampf x lo hi = x"
  by (simp add: clampf_def)

lemma clampf_range: "lo \<le> hi \<Longrightarrow> lo \<le> clampf x lo hi \<and> clampf x lo hi \<le> hi"
  by (simp add: clampf_def)

lemma fmaxf_ge: "a \<le> fmaxf a b"
  by (simp add: fmaxf_def)

subsection \<open>State-variable filter and mixer channel\<close>

lemma svf_demo_coeffs:
  "svf_update_coeffs (svf_demo t) = (svf_demo t)\<lparr> f_g := 1, f_k := 1, prev_cutoff := 1000, prev_q := 1 \<rparr>"
  by (simp add: svf_update_coeffs_def svf_demo_def clampf_def tan_45)

lemma svf_demo_bp: "fst (svf_process (svf_demo F_BP) 3) = 1"
  by (simp add: svf_process_def svf_demo_coeffs svf_v1_def svf_v2_def Let_def
        F_OFF_def F_LP_def F_HP_def F_BP_def)
    (simp add: svf_demo_def)

text \<open>
  Claim C7. For every input sample \<open>x\<close> and filter state \<open>f\<close>, with \<open>g\<close> and \<open>k\<close> the
  coefficients after \<^verbatim>\<open>svf_update_coeffs\<close>, \<open>v1\<close> the first integrator output and \<open>v2\<close> the
  second: \<^verbatim>\<open>svf_process\<close> returns \<open>v2\<close> for LowPass, \<open>x - k * v1 - v2\<close> for HighPass, \<open>v1\<close> for
  BandPass, and for Off it returns \<open>x\<close> and leaves the whole filter state as it was.
\<close>

theorem svf_process_by_type:
  "(let f1 = svf_update_coeffs f;
        g = f_g f1;
        k = f_k f1;
        v1 = (ic1eq f + g * (x - ic2eq f)) / (1 + g * (g + k));
        v2 = ic2eq f + g * v1
    in (f_type f = F_LP \<longrightarrow> fst (svf_process f x) = v2)
     \<and> (f_type f = F_HP \<longrightarrow> fst (svf_process f x) = x - k * v1 - v2)
     \<and> (f_type f = F_BP \<longrightarrow> fst (svf_process f x) = v1)
     \<and> (f_type f = F_OFF \<longrightarrow> svf_process f x = (x, f)))"
proof -
  have ic: "ic1eq (svf_update_coeffs f) = ic1eq f" "ic2eq (svf_update_coeffs f) = ic2eq f"
    by (simp_all add: svf_update_coeffs_def Let_def)
  show ?thesis
    by (simp add: svf_process_def svf_v1_def svf_v2_def ic Let_def
          F_OFF_def F_LP_def F_HP_def F_BP_def)
qed

theorem svf_process_by_type_witness:
  "fst (svf_process (svf_demo F_LP) 3) = 4
   \<and> fst (svf_process (svf_demo F_HP) 3) = - 2
   \<and> fst (svf_process (svf_demo F_BP) 3) = 1
   \<and> svf_process (svf_demo F_OFF) 3 = (3, svf_demo F_OFF)"
  using svf_process_by_type [of "svf_demo F_LP" 3] svf_process_by_type [of "svf_demo F_HP" 3]
    svf_process_by_type [of "svf_demo F_BP" 3] svf_process_by_type [of "svf_demo F_OFF" 3]
  by (simp add: svf_demo_coeffs Let_def) (simp add: svf_demo_def)

text \<open>
  Claim C8. For every mono input sample, \<^verbatim>\<open>channel_stereo\<close> runs the owned filter on it,
  multiplies the filter output by the channel gain to get \<open>m\<close>, and adds
  \<open>m * sqrt (0.5 * (1 - p))\<close> to the left and \<open>m * sqrt (0.5 * (1 + p))\<close> to the right
  output, where \<open>p\<close> is the pan field read in this call, clamped to \<open>[-1, 1]\<close>: for a
  published pan in its range \<open>[-1, 1]\<close> that is the published pan itself.
\<close>

theorem channel_stereo_render:
  "channel_stereo c x (L, R) =
     (let m = fst (svf_process (filt c) x) * c_gain c;
          p = clampf (c_pan c) (- 1) 1
      in (c\<lparr> filt := snd (svf_process (filt c) x) \<rparr>,
          L + m * sqrt (0.5 * (1 - p)), R + m * sqrt (0.5 * (1 + p))))
   \<and> (- 1 \<le> c_pan c \<and> c_pan c \<le> 1 \<longrightarrow>
        fst (snd (channel_stereo c x (L, R)))
          = L + fst (svf_process (filt c) x) * c_gain c * sqrt (0.5 * (1 - c_pan c))
      \<and> snd (snd (channel_stereo c x (L, R)))
          = R + fst (svf_process (filt c) x) * c_gain c * sqrt (0.5 * (1 + c_pan c)))"
  by (simp add: channel_stereo_def Let_def clampf_def split: prod.splits)

theorem channel_stereo_render_witness:
  "- 1 \<le> c_pan channel_demo \<and> c_pan channel_demo \<le> 1
   \<and> fst (snd (channel_stereo channel_demo 3 (10, 20))) = 10
   \<and> snd (snd (channel_stereo channel_demo 3 (10, 20))) = 22"
  using channel_stereo_render [of channel_demo 3 10 20]
  by (simp add: channel_demo_def svf_demo_bp clampf_def Let_def)

subsection \<open>Sample slot playback\<close>

lemma slot_ticks_stopped: "playing s = 0 \<Longrightarrow> slot_ticks n s = Some (replicate n 0, s)"
  by (induction n) (simp_all add: slot_tick_def)

lemma unat_succ_below: "(p :: 32 word) < l \<Longrightarrow> unat (p + 1) = unat p + 1"
proof -
  assume "p < l"
  then have "unat p < unat l" by (simp add: word_less_nat_alt)
  moreover have "unat l < 2 ^ 32" using unsigned_less [of l, where 'a = nat] by simp
  ultimately have "unat p + 1 < 2 ^ 32" by simp
  then show ?thesis by (simp add: unat_word_ariths)
qed

text \<open>
  The cases of \<^verbatim>\<open>slot_tick\<close> on a slot that satisfies the buffer invariant: it returns 0 and
  changes nothing when the slot is not playing or not loaded; when the cursor has reached
  the length and loop is set, and the buffer is not empty, it returns the first sample times
  gain on that tick and leaves the cursor at 1; when the cursor has reached the length and
  loop is not set it clears playing, resets the cursor to 0 and returns 0, and every later
  tick returns 0; in all other cases it returns the sample at the cursor times gain and
  advances the cursor by one.
\<close>

lemma slot_tick_cases:
  assumes ok: "slot_ok s"
  shows "(playing s = 0 \<or> loaded s = 0 \<longrightarrow> slot_tick s = Some (0, s))
   \<and> (playing s \<noteq> 0 \<and> loaded s \<noteq> 0 \<and> pos s \<ge> s_length s \<and> loop s \<noteq> 0 \<and> s_length s \<noteq> 0 \<longrightarrow>
        slot_tick s = Some (the (data s) ! 0 * s_gain s, s\<lparr> pos := 1 \<rparr>))
   \<and> (playing s \<noteq> 0 \<and> loaded s \<noteq> 0 \<and> pos s \<ge> s_length s \<and> loop s = 0 \<longrightarrow>
        slot_tick s = Some (0, s\<lparr> playing := 0, pos := 0 \<rparr>)
        \<and> (\<forall>n. slot_ticks n (s\<lparr> playing := 0, pos := 0 \<rparr>)
               = Some (replicate n 0, s\<lparr> playing := 0, pos := 0 \<rparr>)))
   \<and> (playing s \<noteq> 0 \<and> loaded s \<noteq> 0 \<and> pos s < s_length s \<longrightarrow>
        slot_tick s = Some (the (data s) ! unat (pos s) * s_gain s, s\<lparr> pos := pos s + 1 \<rparr>)
        \<and> unat (pos s + 1) = unat (pos s) + 1)"
proof (intro conjI impI)
  assume "playing s = 0 \<or> loaded s = 0"
  then show "slot_tick s = Some (0, s)" by (auto simp: slot_tick_def)
next
  assume a: "playing s \<noteq> 0 \<and> loaded s \<noteq> 0 \<and> pos s \<ge> s_length s \<and> loop s \<noteq> 0 \<and> s_length s \<noteq> 0"
  with ok obtain buf where buf: "data s = Some buf" "length buf = unat (s_length s)"
    by (auto simp: slot_ok_def split: option.splits)
  from a have "unat (s_length s) \<noteq> 0" by (simp add: unat_eq_0)
  with buf have "0 < length buf" by simp
  with a buf show "slot_tick s = Some (the (data s) ! 0 * s_gain s, s\<lparr> pos := 1 \<rparr>)"
    by (simp add: slot_tick_def slot_emit_def Let_def)
next
  assume a: "playing s \<noteq> 0 \<and> loaded s \<noteq> 0 \<and> pos s \<ge> s_length s \<and> loop s = 0"
  with ok obtain buf where buf: "data s = Some buf"
    by (auto simp: slot_ok_def split: option.splits)
  with a show "slot_tick s = Some (0, s\<lparr> playing := 0, pos := 0 \<rparr>)"
    by (simp add: slot_tick_def Let_def)
  show "\<forall>n. slot_ticks n (s\<lparr> playing := 0, pos := 0 \<rparr>)
               = Some (replicate n 0, s\<lparr> playing := 0, pos := 0 \<rparr>)"
    by (simp add: slot_ticks_stopped)
next
  assume a: "playing s \<noteq> 0 \<and> loaded s \<noteq> 0 \<and> pos s < s_length s"
  with ok obtain buf where buf: "data s = Some buf" "length buf = unat (s_length s)"
    by (auto simp: slot_ok_def split: option.splits)
  from a have "unat (pos s) < unat (s_length s)" by (simp add: word_less_nat_alt)
  with a buf show "slot_tick s = Some (the (data s) ! unat (pos s) * s_gain s, s\<lparr> pos := pos s + 1 \<rparr>)"
    by (simp add: slot_tick_def slot_emit_def Let_def not_le [symmetric])
  from a show "unat (pos s + 1) = unat (pos s) + 1"
    by (simp add: unat_succ_below [of "pos s" "s_length s"])
qed

lemma slot_tick_cases_demo:
  "slot_ok (slot_demo 0 1 0) \<and> slot_tick (slot_demo 0 1 0) = Some (0, slot_demo 0 1 0)
   \<and> slot_ok (slot_demo 1 1 2) \<and> slot_tick (slot_demo 1 1 2) = Some (1, slot_demo 1 1 1)
   \<and> slot_ok (slot_demo 1 0 2) \<and> slot_tick (slot_demo 1 0 2) = Some (0, slot_demo 0 0 0)
   \<and> slot_ticks 3 (slot_demo 0 0 0) = Some (replicate 3 0, slot_demo 0 0 0)
   \<and> slot_ok (slot_demo 1 0 1) \<and> slot_tick (slot_demo 1 0 1) = Some (1 / 2, slot_demo 1 0 2)"
proof -
  have ok: "slot_ok (slot_demo pl lp p)" for pl lp p
    by (simp add: slot_ok_def slot_demo_def)
  have r3: "replicate 3 (0::real) = [0, 0, 0]"
    by (simp add: numeral_3_eq_3)
  show ?thesis
    using slot_tick_cases [OF ok, of 0 1 0] slot_tick_cases [OF ok, of 1 1 2]
      slot_tick_cases [OF ok, of 1 0 2] slot_tick_cases [OF ok, of 1 0 1]
    by (simp add: ok) (simp add: slot_demo_def)
qed

text \<open>The state these cases leave out: a loaded, playing, looping slot whose buffer has no
  sample. The wrap-around branch then reads \<^verbatim>\<open>data[0]\<close>, which is outside the buffer.\<close>

lemma slot_tick_empty_loop:
  "slot_tick \<lparr> s_assignedCh = 0, loaded = 1, playing = 1, loop = 1, s_gain = 1,
     data = Some [], s_length = 0, pos = 0, haveDecoder = 1 \<rparr> = None"
  by (simp add: slot_tick_def slot_emit_def)

subsection \<open>Command interpreter\<close>

lemmas libc_eval = tokenize_def is_delim_def atoi_def atof_def atof_unsigned_def atof_exponent_def
  isspace_def isdigit_def digits_val_def digit_val_def show_int_def show_nat.simps fmt_f_def
  round_half_even_def snprintf_def

lemma snprintf_short: "length txt < sz \<Longrightarrow> snprintf sz txt = txt"
  by (simp add: snprintf_def)

lemma show_nat_length: "n < 100 \<Longrightarrow> length (show_nat n) \<le> 2"
proof -
  assume n: "n < 100"
  have one: "length (show_nat m) = 1" if "m < 10" for m
    using that by (subst show_nat.simps) simp
  from n have "n div 10 < 10" by simp
  then show ?thesis
    using one [of "n div 10"] one [of n] by (subst show_nat.simps) simp
qed

lemma show_int_length: "0 \<le> i \<Longrightarrow> i < 100 \<Longrightarrow> length (show_int i) \<le> 2"
  using show_nat_length [of "nat i"] by (simp add: show_int_def)

lemma engine_ok_demo: "engine_ok (G sys_demo)"
  by (simp add: engine_ok_def sys_demo_def engine_init_def NUM_CHANNELS_def NUM_SLOTS_def NUM_VOICES_def)

text \<open>One \<^verbatim>\<open>srv_broadcast\<close> hands one datagram per subscriber to \<^verbatim>\<open>sendto\<close>, in list order, and
  keeps the subscribers whose delivery did not fail with a destination-gone error.\<close>

lemma broadcast_loop_sends:
  "snd (broadcast_loop w ev subs i sends) = sends @ map (\<lambda>p. (p, ev)) (drop i subs)"
proof (induction w ev subs i sends rule: broadcast_loop.induct)
  case (1 w event subs i sends)
  show ?case
  proof (cases "i < length subs")
    case False
    then show ?thesis by (simp add: broadcast_loop.simps)
  next
    case True
    note lt = this
    have d: "drop i subs = subs ! i # drop (Suc i) subs"
      using lt by (simp add: Cons_nth_drop_Suc)
    show ?thesis
    proof (cases "sendto w (subs ! i) = Gone")
      case True
      have "drop i (remove_at i subs) = drop (Suc i) subs"
        using lt by (simp add: remove_at_def)
      with 1(1) [OF lt True] lt True d show ?thesis
        by (subst broadcast_loop.simps) simp
    next
      case False
      with 1(2) [OF lt False] lt d show ?thesis
        by (subst broadcast_loop.simps) simp
    qed
  qed
qed

lemma broadcast_loop_subs:
  "fst (broadcast_loop w ev subs i sends) = take i subs @ filter (\<lambda>p. sendto w p \<noteq> Gone) (drop i subs)"
proof (induction w ev subs i sends rule: broadcast_loop.induct)
  case (1 w event subs i sends)
  show ?case
  proof (cases "i < length subs")
    case False
    then show ?thesis by (simp add: broadcast_loop.simps)
  next
    case True
    note lt = this
    have d: "drop i subs = subs ! i # drop (Suc i) subs"
      using lt by (simp add: Cons_nth_drop_Suc)
    show ?thesis
    proof (cases "sendto w (subs ! i) = Gone")
      case True
      have "drop i (remove_at i subs) = drop (Suc i) subs" "take i (remove_at i subs) = take i subs"
        using lt by (simp_all add: remove_at_def)
      with 1(1) [OF lt True] lt True d show ?thesis
        by (subst broadcast_loop.simps) simp
    next
      case False
      have "take (Suc i) subs = take i subs @ [subs ! i]"
        using lt by (simp add: take_Suc_conv_app_nth)
      with 1(2) [OF lt False] lt False d show ?thesis
        by (subst broadcast_loop.simps) simp
    qed
  qed
qed

lemma srv_broadcast_eq:
  "srv_broadcast w srv ev =
     (srv\<lparr> subscribers := filter (\<lambda>p. sendto w p \<noteq> Gone) (subscribers srv) \<rparr>,
      map (\<lambda>p. (p, ev)) (subscribers srv))"
  using broadcast_loop_sends [of w ev "subscribers srv" 0 "[]"]
    broadcast_loop_subs [of w ev "subscribers srv" 0 "[]"]
  by (cases "broadcast_loop w ev (subscribers srv) 0 []") (simp add: srv_broadcast_def)

text \<open>
  Claim C6. For a command whose tokens are \<^verbatim>\<open>SAMPLE\<close>, a slot number \<open>si\<close> in 1..16 and
  \<^verbatim>\<open>TRIG\<close>: when slot \<open>si\<close> is not loaded the reply is the line
  \<^verbatim>\<open>ERROR Sample <si> not loaded\<close>, the whole state (hence the playing flag and the cursor)
  is unchanged and nothing is broadcast; when it is loaded the reply is
  \<^verbatim>\<open>OK SAMPLE <si> TRIG\<close> and the slot gets playing = 1 and cursor = 0.
\<close>

theorem sample_trig:
  assumes tok: "tokenize cmd = ''SAMPLE'' # t # ''TRIG'' # rest"
    and si: "atoi t = si" "1 \<le> si" "si \<le> 16"
    and ok: "engine_ok (G st)"
  shows "(loaded (slots (G st) ! nat (si - 1)) = 0 \<longrightarrow>
           response (process_command w st cmd) = ''ERROR Sample '' @ show_int si @ '' not loaded\<newline>''
           \<and> st_out (process_command w st cmd) = st
           \<and> events (process_command w st cmd) = [])
       \<and> (loaded (slots (G st) ! nat (si - 1)) \<noteq> 0 \<longrightarrow>
           response (process_command w st cmd) = ''OK SAMPLE '' @ show_int si @ '' TRIG\<newline>''
           \<and> slots (G (st_out (process_command w st cmd)))
               = (slots (G st))[nat (si - 1) := (slots (G st) ! nat (si - 1))\<lparr> playing := 1, pos := 0 \<rparr>]
           \<and> playing (slots (G (st_out (process_command w st cmd))) ! nat (si - 1)) = 1
           \<and> pos (slots (G (st_out (process_command w st cmd))) ! nat (si - 1)) = 0)"
proof -
  have len: "length (show_int si) \<le> 2"
    using si by (intro show_int_length) auto
  have i: "nat (si - 1) < length (slots (G st))"
    using si ok by (simp add: engine_ok_def NUM_SLOTS_def)
  have pc: "process_command w st cmd = cmd_sample w st (''SAMPLE'' # t # ''TRIG'' # rest)"
    by (simp add: process_command_def tok Let_def)
  show ?thesis
    using si len i
    by (simp add: pc cmd_sample_def Let_def NUM_SLOTS_def reply_def reply_broadcast_def
          srv_broadcast_eq set_slot_def snprintf_short RESP_SIZE_def)
qed

theorem sample_trig_witness:
  "response (process_command world_demo sys_demo ''SAMPLE 1 TRIG'') = ''ERROR Sample 1 not loaded\<newline>''
   \<and> st_out (process_command world_demo sys_demo ''SAMPLE 1 TRIG'') = sys_demo
   \<and> response (process_command world_demo sys_demo ''SAMPLE 3 TRIG'') = ''OK SAMPLE 3 TRIG\<newline>''
   \<and> playing (slots (G (st_out (process_command world_demo sys_demo ''SAMPLE 3 TRIG''))) ! 2) = 1
   \<and> pos (slots (G (st_out (process_command world_demo sys_demo ''SAMPLE 3 TRIG''))) ! 2) = 0"
proof -
  have t1: "tokenize ''SAMPLE 1 TRIG'' = ''SAMPLE'' # ''1'' # ''TRIG'' # []"
    and t3: "tokenize ''SAMPLE 3 TRIG'' = ''SAMPLE'' # ''3'' # ''TRIG'' # []"
    by (simp_all add: tokenize_def is_delim_def)
  have a1: "atoi ''1'' = 1" and a3: "atoi ''3'' = 3"
    by (simp_all add: libc_eval)
  have l1: "loaded (slots (G sys_demo) ! nat (1 - 1)) = 0"
    and l3: "loaded (slots (G sys_demo) ! nat (3 - 1)) \<noteq> 0"
    by (simp_all add: sys_demo_def slot_init_def slot_demo_def numeral_2_eq_2)
  have n16: "length (slots (G sys_demo)) = 16"
    using engine_ok_demo by (simp add: engine_ok_def NUM_SLOTS_def)
  show ?thesis
    using sample_trig [OF t1 a1 _ _ engine_ok_demo, of world_demo]
      sample_trig [OF t3 a3 _ _ engine_ok_demo, of world_demo] l1 l3
    by (simp add: show_int_def show_nat.simps n16)
qed

text \<open>
  Claim C9. After the command \<^verbatim>\<open>CH 2 GAIN 0.5\<close> the gain of channel 2 is exactly 1/2, the
  reply is \<^verbatim>\<open>OK CH 2 GAIN 0.500\<close>, and the datagrams handed to \<^verbatim>\<open>sendto\<close> are the line
  \<^verbatim>\<open>EVENT CHANNEL 2 GAIN 0.500\<close> once for each entry of the subscriber list at that time, in
  order, and nothing else.
\<close>

theorem ch_gain_roundtrip:
  assumes ok: "engine_ok (G st)"
  shows "c_gain (ch (G (st_out (process_command w st ''CH 2 GAIN 0.5''))) ! 1) = 1 / 2
       \<and> response (process_command w st ''CH 2 GAIN 0.5'') = ''OK CH 2 GAIN 0.500\<newline>''
       \<and> events (process_command w st ''CH 2 GAIN 0.5'')
           = map (\<lambda>p. (p, ''EVENT CHANNEL 2 GAIN 0.500\<newline>'')) (subscribers (g_srv st))"
proof -
  have tok: "tokenize ''CH 2 GAIN 0.5'' = [''CH'', ''2'', ''GAIN'', ''0.5'']"
    by (simp add: tokenize_def is_delim_def)
  have a2: "atoi ''2'' = 2" and f: "atof ''0.5'' = 1 / 2"
    by (simp_all add: libc_eval)
  have fm: "fmt_f 3 (1 / 2) = ''0.500''" and s2: "show_int 2 = ''2''"
    by (simp_all add: libc_eval)
  have len: "1 < length (ch (G st))"
    using ok by (simp add: engine_ok_def NUM_CHANNELS_def)
  have pc: "process_command w st ''CH 2 GAIN 0.5'' = cmd_ch w st [''CH'', ''2'', ''GAIN'', ''0.5'']"
    by (simp add: process_command_def tok Let_def)
  show ?thesis
    using len
    by (simp add: pc cmd_ch_def Let_def a2 f fm s2 NUM_CHANNELS_def clampf_def reply_broadcast_def
          srv_broadcast_eq set_ch_def snprintf_def RESP_SIZE_def)
qed

theorem ch_gain_roundtrip_witness:
  "engine_ok (G sys_demo)
   \<and> c_gain (ch (G (st_out (process_command world_demo sys_demo ''CH 2 GAIN 0.5''))) ! 1) = 1 / 2
   \<and> events (process_command world_demo sys_demo ''CH 2 GAIN 0.5'')
       = [(''/tmp/a'', ''EVENT CHANNEL 2 GAIN 0.500\<newline>''),
          (''/tmp/dead'', ''EVENT CHANNEL 2 GAIN 0.500\<newline>''),
          (''/tmp/b'', ''EVENT CHANNEL 2 GAIN 0.500\<newline>'')]"
  using ch_gain_roundtrip [OF engine_ok_demo, of world_demo]
  by (simp add: engine_ok_demo) (simp add: sys_demo_def)

lemma already_subscribed_iff: "already_subscribed ps path \<longleftrightarrow> path \<in> set ps"
  by (induction ps) auto

lemma subscribe_step:
  assumes tok: "tokenize cmd = ''SUBSCRIBE'' # path # rest"
  shows "process_command w st cmd
           = reply (st\<lparr> g_srv := srv_add_subscriber w (g_srv st) path \<rparr>) ''OK Subscribed\<newline>''"
  by (simp add: process_command_def tok Let_def)

text \<open>
  Claim C3, as amended. For a command whose tokens are \<^verbatim>\<open>SUBSCRIBE\<close> and a path: when the list
  already holds 32 endpoints, or the path is already in it, the reply is \<^verbatim>\<open>OK Subscribed\<close>,
  the state (so the subscriber list) is unchanged and nothing is sent; when there is room
  and a path shorter than \<^verbatim>\<open>sun_path\<close> is new, the first \<^verbatim>\<open>SUBSCRIBE\<close> appends it and a second
  one changes nothing, leaving exactly one entry for it.
\<close>

theorem subscribe_full_or_duplicate:
  assumes tok: "tokenize cmd = ''SUBSCRIBE'' # path # rest"
  shows "(length (subscribers (g_srv st)) \<ge> MAX_SUBSCRIBERS \<or> path \<in> set (subscribers (g_srv st)) \<longrightarrow>
            response (process_command w st cmd) = ''OK Subscribed\<newline>''
            \<and> st_out (process_command w st cmd) = st
            \<and> events (process_command w st cmd) = [])
       \<and> (length (subscribers (g_srv st)) < MAX_SUBSCRIBERS \<and> path \<notin> set (subscribers (g_srv st))
            \<and> length path < sun_path_size w \<longrightarrow>
            subscribers (g_srv (st_out (process_command w st cmd))) = subscribers (g_srv st) @ [path]
            \<and> subscribers (g_srv (process_commands w st [cmd, cmd])) = subscribers (g_srv st) @ [path]
            \<and> count_list (subscribers (g_srv (process_commands w st [cmd, cmd]))) path = 1)"
  by (auto simp: subscribe_step [OF tok] reply_def srv_add_subscriber_def already_subscribed_iff
        snprintf_def RESP_SIZE_def count_list_0_iff [THEN iffD2])

text \<open>What the amended claim leaves out: a path that does not fit \<^verbatim>\<open>sun_path\<close> is stored
  truncated and compared untruncated, so subscribing it twice stores it twice.\<close>

lemma subscribe_long_path_twice:
  assumes tok: "tokenize cmd = ''SUBSCRIBE'' # path # rest"
    and long: "0 < sun_path_size w" "sun_path_size w \<le> length path"
    and room: "length (subscribers (g_srv st)) + 2 \<le> MAX_SUBSCRIBERS"
    and new: "path \<notin> set (subscribers (g_srv st))"
  shows "subscribers (g_srv (process_commands w st [cmd, cmd]))
           = subscribers (g_srv st) @ [take (sun_path_size w - 1) path, take (sun_path_size w - 1) path]"
proof -
  have "length (take (sun_path_size w - 1) path) < length path"
    using long by simp
  then have ne: "take (sun_path_size w - 1) path \<noteq> path"
    by (metis less_irrefl)
  show ?thesis
    using room new ne ne [symmetric]
    by (auto simp: subscribe_step [OF tok] reply_def srv_add_subscriber_def already_subscribed_iff)
qed

lemma sys_full_count: "length (subscribers (g_srv sys_full)) = 32"
  by (simp add: sys_full_def)

lemma sys_full_new: "''/tmp/new'' \<notin> set (subscribers (g_srv sys_full))"
  by (auto simp: sys_full_def)

text \<open>
  Claim C3 as stated (an \<^verbatim>\<open>ERROR\<close> reply when the list is full) fails: with 32 subscribers,
  \<^verbatim>\<open>SUBSCRIBE /tmp/new\<close> for an endpoint that is not in the list is answered \<^verbatim>\<open>OK Subscribed\<close>.
\<close>

theorem subscribe_full_counterexample:
  "length (subscribers (g_srv sys_full)) = MAX_SUBSCRIBERS
   \<and> ''/tmp/new'' \<notin> set (subscribers (g_srv sys_full))
   \<and> take 5 (response (process_command world_demo sys_full ''SUBSCRIBE /tmp/new'')) \<noteq> ''ERROR''
   \<and> response (process_command world_demo sys_full ''SUBSCRIBE /tmp/new'') = ''OK Subscribed\<newline>''"
proof -
  have tok: "tokenize ''SUBSCRIBE /tmp/new'' = ''SUBSCRIBE'' # ''/tmp/new'' # []"
    by (simp add: tokenize_def is_delim_def)
  show ?thesis
    by (simp add: subscribe_step [OF tok] reply_def snprintf_def RESP_SIZE_def sys_full_count
          sys_full_new MAX_SUBSCRIBERS_def)
qed

theorem subscribe_full_or_duplicate_witness:
  "length (subscribers (g_srv sys_full)) \<ge> MAX_SUBSCRIBERS
   \<and> st_out (process_command world_demo sys_full ''SUBSCRIBE /tmp/new'') = sys_full
   \<and> ''/tmp/a'' \<in> set (subscribers (g_srv sys_demo))
   \<and> st_out (process_command world_demo sys_demo ''SUBSCRIBE /tmp/a'') = sys_demo
   \<and> length (subscribers (g_srv sys_demo)) < MAX_SUBSCRIBERS \<and> ''/tmp/c'' \<notin> set (subscribers (g_srv sys_demo))
   \<and> length ''/tmp/c'' < sun_path_size world_demo
   \<and> subscribers (g_srv (process_commands world_demo sys_demo [''SUBSCRIBE /tmp/c'', ''SUBSCRIBE /tmp/c'']))
       = [''/tmp/a'', ''/tmp/dead'', ''/tmp/b'', ''/tmp/c'']"
proof -
  have t1: "tokenize ''SUBSCRIBE /tmp/new'' = ''SUBSCRIBE'' # ''/tmp/new'' # []"
    and t2: "tokenize ''SUBSCRIBE /tmp/a'' = ''SUBSCRIBE'' # ''/tmp/a'' # []"
    and t3: "tokenize ''SUBSCRIBE /tmp/c'' = ''SUBSCRIBE'' # ''/tmp/c'' # []"
    by (simp_all add: tokenize_def is_delim_def)
  have subs: "subscribers (g_srv sys_demo) = [''/tmp/a'', ''/tmp/dead'', ''/tmp/b'']"
    by (simp add: sys_demo_def)
  have w: "sun_path_size world_demo = 104"
    by (simp add: world_demo_def)
  show ?thesis
    using subscribe_full_or_duplicate [OF t1, of sys_full world_demo]
      subscribe_full_or_duplicate [OF t2, of sys_demo world_demo]
      subscribe_full_or_duplicate [OF t3, of sys_demo world_demo]
    by (simp add: sys_full_count MAX_SUBSCRIBERS_def subs w)
qed

subsection \<open>Synth voice: pending spikes\<close>

lemma spike_step:
  assumes tok: "tokenize cmd = ''VOICE'' # t # ''SPIKE'' # rest"
    and vi: "atoi t = vi" "1 \<le> vi" "vi \<le> 8"
  shows "st_out (process_command w st cmd)
           = set_voice st (nat (vi - 1))
               ((voices (G st) ! nat (vi - 1))\<lparr> spikes := spikes (voices (G st) ! nat (vi - 1)) + 1 \<rparr>)"
proof -
  have pc: "process_command w st cmd = cmd_voice w st (''VOICE'' # t # ''SPIKE'' # rest)"
    by (simp add: process_command_def tok Let_def)
  show ?thesis
    using vi by (simp add: pc cmd_voice_def Let_def NUM_VOICES_def reply_def)
qed

lemma spike_steps:
  assumes tok: "tokenize cmd = ''VOICE'' # t # ''SPIKE'' # rest"
    and vi: "atoi t = vi" "1 \<le> vi" "vi \<le> 8"
    and ok: "engine_ok (G st)"
  shows "process_commands w st (replicate n cmd)
           = set_voice st (nat (vi - 1))
               ((voices (G st) ! nat (vi - 1))\<lparr> spikes := spikes (voices (G st) ! nat (vi - 1)) + of_nat n \<rparr>)"
  using ok
proof (induction n arbitrary: st)
  case 0
  then have "nat (vi - 1) < length (voices (G st))"
    using vi by (simp add: engine_ok_def NUM_VOICES_def)
  then show ?case by (simp add: set_voice_def)
next
  case (Suc n)
  let ?i = "nat (vi - 1)"
  let ?st1 = "st_out (process_command w st cmd)"
  have i: "?i < length (voices (G st))"
    using vi Suc.prems by (simp add: engine_ok_def NUM_VOICES_def)
  have st1: "?st1 = set_voice st ?i ((voices (G st) ! ?i)\<lparr> spikes := spikes (voices (G st) ! ?i) + 1 \<rparr>)"
    by (rule spike_step [OF tok vi])
  have ok1: "engine_ok (G ?st1)"
    using Suc.prems by (simp add: st1 set_voice_def engine_ok_def)
  show ?case
    using i by (simp add: Suc.IH [OF ok1]) (simp add: st1 set_voice_def add.assoc)
qed

lemma sint_add_of_nat:
  fixes x :: "32 word"
  assumes "0 \<le> sint x" "sint x + int n < 2 ^ 31"
  shows "sint (x + of_nat n) = sint x + int n"
proof -
  have "x + of_nat n = word_of_int (sint x + int n)"
    by simp
  then have "sint (x + of_nat n) = signed_take_bit 31 (sint x + int n)"
    by (simp only: sint_sbintrunc') simp
  also have "\<dots> = sint x + int n"
    using assms by (intro signed_take_bit_int_eq_self) auto
  finally show ?thesis .
qed

text \<open>
  Claim C10. Let voice \<open>vi\<close> be off with a pending count \<open>c \<ge> 0\<close>, and let \<open>n > 0\<close> \<^verbatim>\<open>SPIKE\<close>
  commands for it arrive (with \<open>c + n\<close> below \<open>2^31\<close>, the range of the counter). A tick of
  the voice while it is off returns 0 and changes nothing, before and after the commands;
  the commands change only the counter, which then reads \<open>c + n\<close>; and the first tick with
  \<open>on = 1\<close> zeroes the counter and adds the whole count \<open>c + n\<close> to both registers A and B
  (which are then decayed by that tick).
\<close>

theorem spikes_wait_while_off:
  assumes tok: "tokenize cmd = ''VOICE'' # t # ''SPIKE'' # rest"
    and vi: "atoi t = vi" "1 \<le> vi" "vi \<le> 8"
    and ok: "engine_ok (G st)"
    and off: "on (voices (G st) ! nat (vi - 1)) = 0"
    and cnt: "0 \<le> sint (spikes (voices (G st) ! nat (vi - 1)))"
             "sint (spikes (voices (G st) ! nat (vi - 1))) + int n < 2 ^ 31"
    and n: "0 < n"
  shows "(let V = voices (G st) ! nat (vi - 1);
              V' = voices (G (process_commands w st (replicate n cmd))) ! nat (vi - 1);
              s = sint (spikes V) + int n;
              da = exp (- 1 / (fmaxf (1 / 10000) (tauA V) * v_sr V));
              db = exp (- 1 / (fmaxf (1 / 10000) (tauB V) * v_sr V));
              V'' = snd (voice_tick (V'\<lparr> on := 1 \<rparr>))
          in voice_tick V = (0, V)
           \<and> V' = V\<lparr> spikes := spikes V + of_nat n \<rparr>
           \<and> sint (spikes V') = s
           \<and> voice_tick V' = (0, V')
           \<and> spikes V'' = 0
           \<and> Astate V'' = (Astate V + real_of_int s) * da
           \<and> Bstate V'' = (Bstate V + real_of_int s) * db)"
proof -
  let ?i = "nat (vi - 1)"
  let ?V = "voices (G st) ! ?i"
  have i: "?i < length (voices (G st))"
    using vi ok by (simp add: engine_ok_def NUM_VOICES_def)
  have V': "voices (G (process_commands w st (replicate n cmd))) ! ?i = ?V\<lparr> spikes := spikes ?V + of_nat n \<rparr>"
    using i by (simp add: spike_steps [OF tok vi ok] set_voice_def)
  have s: "sint (spikes ?V + of_nat n) = sint (spikes ?V) + int n"
    by (rule sint_add_of_nat [OF cnt])
  have pos: "0 < sint (spikes ?V) + int n"
    using cnt n by simp
  show ?thesis
    using off pos
    by (simp add: V' s Let_def voice_tick_def voice_drain_def voice_decay_def)
qed

theorem spikes_wait_while_off_witness:
  "(let V' = voices (G (process_commands world_demo sys_demo (replicate 3 ''VOICE 2 SPIKE''))) ! 1;
        V'' = snd (voice_tick (V'\<lparr> on := 1 \<rparr>))
    in on V' = 0 \<and> sint (spikes V') = 3 \<and> voice_tick V' = (0, V') \<and> spikes V'' = 0
     \<and> Astate V'' = 3 * exp (- 1 / 240) \<and> Bstate V'' = 3 * exp (- 1 / 960))"
proof -
  have tok: "tokenize ''VOICE 2 SPIKE'' = ''VOICE'' # ''2'' # ''SPIKE'' # []"
    by (simp add: tokenize_def is_delim_def)
  have a2: "atoi ''2'' = 2"
    by (simp add: libc_eval)
  have V: "voices (G sys_demo) ! Suc 0 = voice_init 48000"
    by (simp add: sys_demo_def engine_init_def NUM_VOICES_def)
  have off: "on (voices (G sys_demo) ! nat (2 - 1)) = 0"
    and c1: "0 \<le> sint (spikes (voices (G sys_demo) ! nat (2 - 1)))"
    and c2: "sint (spikes (voices (G sys_demo) ! nat (2 - 1))) + int 3 < 2 ^ 31"
    by (simp_all add: V voice_init_def)
  have fields: "on (voice_init 48000) = 0" "spikes (voice_init 48000) = 0"
    "tauA (voice_init 48000) = 1 / 200" "tauB (voice_init 48000) = 1 / 50"
    "v_sr (voice_init 48000) = 48000" "Astate (voice_init 48000) = 0" "Bstate (voice_init 48000) = 0"
    by (simp_all add: voice_init_def)
  show ?thesis
    using spikes_wait_while_off [OF tok a2 _ _ engine_ok_demo off c1 c2, of world_demo]
    by (simp add: Let_def V fields fmaxf_def voice_tick_def voice_drain_def voice_decay_def)
qed

subsection \<open>Loading a sample\<close>



lemma slot_free_eq:
  "slot_free s = s\<lparr> data := None, haveDecoder := 0, loaded := 0, playing := 0 \<rparr>"
  by (cases s) (simp add: slot_free_def Let_def)


lemma slot_load_path_failed:
  "fst (slot_load_path s d) \<noteq> 0 \<Longrightarrow>
     data (snd (slot_load_path s d)) = None \<and> loaded (snd (slot_load_path s d)) = 0
     \<and> playing (snd (slot_load_path s d)) = 0"
  by (simp add: slot_load_path_def Let_def slot_free_eq split: if_splits)


lemma slot_load_path_ok: "slot_ok (snd (slot_load_path s d))"
  by (simp add: slot_load_path_def Let_def slot_free_eq slot_ok_def downmix_def)




subsection \<open>Ranges of the stored channel settings\<close>

lemma ch_reply [simp]: "ch (G (st_out (reply st txt))) = ch (G st)"
  by (simp add: reply_def)

lemma ch_reply_broadcast [simp]: "ch (G (st_out (reply_broadcast w st txt ev))) = ch (G st)"
  by (simp add: reply_broadcast_def srv_broadcast_eq)

lemma ch_set_voice [simp]: "ch (G (set_voice st i v)) = ch (G st)"
  by (simp add: set_voice_def)

lemma ch_set_slot [simp]: "ch (G (set_slot st i s)) = ch (G st)"
  by (simp add: set_slot_def)

lemma ch_set_ch [simp]: "ch (G (set_ch st i c)) = (ch (G st))[i := c]"
  by (simp add: set_ch_def)

lemma cmd_master_ch: "ch (G (st_out (cmd_master w st tokens))) = ch (G st)"
  by (simp add: cmd_master_def Let_def)

lemma cmd_voice_ch: "ch (G (st_out (cmd_voice w st tokens))) = ch (G st)"
  by (simp add: cmd_voice_def Let_def)

lemma cmd_sample_ch: "ch (G (st_out (cmd_sample w st tokens))) = ch (G st)"
  by (simp add: cmd_sample_def Let_def split: option.splits prod.splits)

lemma list_all_update: "list_all P xs \<Longrightarrow> P x \<Longrightarrow> list_all P (xs[i := x])"
  by (induction xs arbitrary: i) (auto split: nat.splits)

lemma list_all_nth: "list_all P xs \<Longrightarrow> i < length xs \<Longrightarrow> P (xs ! i)"
  by (simp add: list_all_length)

lemma cmd_ch_in_range:
  assumes ok: "engine_ok (G st)" and inr: "chans_in_range (G st)"
  shows "chans_in_range (G (st_out (cmd_ch w st tokens)))"
proof -
  have C: "chan_in_range (ch (G st) ! nat (atoi (tokens ! 1) - 1))"
    if "1 \<le> atoi (tokens ! 1)" "atoi (tokens ! 1) \<le> 4"
    using that ok inr list_all_nth [of chan_in_range "ch (G st)" "nat (atoi (tokens ! 1) - 1)"]
    by (simp add: chans_in_range_def engine_ok_def NUM_CHANNELS_def)
  have upd: "list_all chan_in_range ((ch (G st))[i := c])" if "chan_in_range c" for i c
    using inr that by (simp add: chans_in_range_def list_all_update)
  show ?thesis
    using inr C
    by (auto simp: cmd_ch_def Let_def chans_in_range_def NUM_CHANNELS_def intro!: upd
          simp: chan_in_range_def clampf_def fmaxf_def)
qed

lemma process_command_in_range:
  assumes ok: "engine_ok (G st)" and inr: "chans_in_range (G st)"
  shows "chans_in_range (G (st_out (process_command w st cmd)))"
  using inr cmd_ch_in_range [OF ok inr]
  by (simp add: process_command_def Let_def chans_in_range_def cmd_master_ch cmd_voice_ch cmd_sample_ch)

lemma chans_in_range_upd:
  "chans_in_range E \<Longrightarrow> chan_in_range c \<Longrightarrow> chans_in_range (E\<lparr> ch := (ch E)[i := c] \<rparr>)"
  by (simp add: chans_in_range_def list_all_update)

lemma chans_in_range_master: "chans_in_range (E\<lparr> masterGain := m \<rparr>) = chans_in_range E"
  by (simp add: chans_in_range_def)

lemma osc_handle_mapped_in_range:
  assumes ok: "engine_ok E" and inr: "chans_in_range E" and v: "0 \<le> v" "v \<le> 1"
  shows "chans_in_range (snd (osc_handle_mapped E path v))"
proof -
  have C: "chan_in_range (ch E ! i)" if "i < 4" for i
    using that ok inr list_all_nth [of chan_in_range "ch E" i]
    by (simp add: chans_in_range_def engine_ok_def NUM_CHANNELS_def)
  have g: "chan_in_range ((ch E ! i)\<lparr> c_gain := v \<rparr>)" if "i < 4" for i
    using C [OF that] v by (simp add: chan_in_range_def)
  have p: "chan_in_range ((ch E ! i)\<lparr> c_pan := v * 2 - 1 \<rparr>)" if "i < 4" for i
    using C [OF that] v by (simp add: chan_in_range_def)
  have c: "chan_in_range ((ch E ! 0)\<lparr> filt := (filt (ch E ! 0))\<lparr> f_cutoff := 100 + v * 7900 \<rparr> \<rparr>)"
    using C [of 0] v by (simp add: chan_in_range_def)
  show ?thesis
  proof (cases "scan_mapped path")
    case None
    then show ?thesis by (simp add: osc_handle_mapped_def inr)
  next
    case (Some vs)
    then show ?thesis
      by (cases vs)
        (simp add: osc_handle_mapped_def Let_def inr chans_in_range_upd chans_in_range_master g p c)
  qed
qed

lemma cmd_ch_gain:
  assumes tok: "tokenize cmd = ''CH'' # t # ''GAIN'' # x # rest"
    and n: "1 \<le> atoi t" "atoi t \<le> 4" and ok: "engine_ok (G st)"
  shows "c_gain (ch (G (st_out (process_command w st cmd))) ! nat (atoi t - 1)) = clampf (atof x) 0 10"
proof -
  have i: "nat (atoi t - 1) < length (ch (G st))"
    using n ok by (simp add: engine_ok_def NUM_CHANNELS_def)
  have pc: "process_command w st cmd = cmd_ch w st (''CH'' # t # ''GAIN'' # x # rest)"
    by (simp add: process_command_def tok Let_def)
  show ?thesis
    using n i by (simp add: pc cmd_ch_def Let_def NUM_CHANNELS_def)
qed

lemma cmd_ch_pan:
  assumes tok: "tokenize cmd = ''CH'' # t # ''PAN'' # x # rest"
    and n: "1 \<le> atoi t" "atoi t \<le> 4" and ok: "engine_ok (G st)"
  shows "c_pan (ch (G (st_out (process_command w st cmd))) ! nat (atoi t - 1)) = clampf (atof x) (- 1) 1"
proof -
  have i: "nat (atoi t - 1) < length (ch (G st))"
    using n ok by (simp add: engine_ok_def NUM_CHANNELS_def)
  have pc: "process_command w st cmd = cmd_ch w st (''CH'' # t # ''PAN'' # x # rest)"
    by (simp add: process_command_def tok Let_def)
  show ?thesis
    using n i by (simp add: pc cmd_ch_def Let_def NUM_CHANNELS_def)
qed

lemma cmd_ch_filter:
  assumes tok: "tokenize cmd = ''CH'' # t # ''FILTER'' # ty # x # y # rest"
    and n: "1 \<le> atoi t" "atoi t \<le> 4" and ok: "engine_ok (G st)"
  shows "f_cutoff (filt (ch (G (st_out (process_command w st cmd))) ! nat (atoi t - 1))) = fmaxf 20 (atof x)
       \<and> f_q (filt (ch (G (st_out (process_command w st cmd))) ! nat (atoi t - 1))) = fmaxf 0.1 (atof y)"
proof -
  have i: "nat (atoi t - 1) < length (ch (G st))"
    using n ok by (simp add: engine_ok_def NUM_CHANNELS_def)
  have pc: "process_command w st cmd = cmd_ch w st (''CH'' # t # ''FILTER'' # ty # x # y # rest)"
    by (simp add: process_command_def tok Let_def)
  show ?thesis
    using n i by (simp add: pc cmd_ch_def Let_def NUM_CHANNELS_def)
qed

lemma svf_update_coeffs_q: "prev_q (svf_update_coeffs f) = clampf (f_q f) 0.1 20"
  by (simp add: svf_update_coeffs_def Let_def)

text \<open>
  Claim C1, as amended. For every command text, the command interpreter keeps every channel
  within gain in \<open>[0, 10]\<close>, pan in \<open>[-1, 1]\<close>, cutoff at least 20 Hz and Q at least 0.1:
  \<^verbatim>\<open>CH n GAIN x\<close> stores \<open>x\<close> clamped to \<open>[0, 10]\<close>, \<^verbatim>\<open>CH n PAN x\<close> stores \<open>x\<close> clamped to
  \<open>[-1, 1]\<close>, \<^verbatim>\<open>CH n FILTER t x y\<close> stores the larger of 20 and \<open>x\<close> as cutoff and the larger
  of 0.1 and \<open>y\<close> as Q. Q has no upper clamp where it is stored; the filter clamps the Q it
  reads to \<open>[0.1, 20]\<close>. The OSC handler keeps every channel within these ranges for an
  argument in the protocol's range \<open>[0, 1]\<close>.
\<close>

theorem writers_clamp:
  assumes ok: "engine_ok (G st)" and inr: "chans_in_range (G st)"
  shows "chans_in_range (G (st_out (process_command w st cmd)))
       \<and> (tokenize cmd = ''CH'' # t # ''GAIN'' # x # rest \<and> 1 \<le> atoi t \<and> atoi t \<le> 4 \<longrightarrow>
            c_gain (ch (G (st_out (process_command w st cmd))) ! nat (atoi t - 1))
              = clampf (atof x) 0 10)
       \<and> (tokenize cmd = ''CH'' # t # ''PAN'' # x # rest \<and> 1 \<le> atoi t \<and> atoi t \<le> 4 \<longrightarrow>
            c_pan (ch (G (st_out (process_command w st cmd))) ! nat (atoi t - 1))
              = clampf (atof x) (- 1) 1)
       \<and> (tokenize cmd = ''CH'' # t # ''FILTER'' # ty # x # y # rest \<and> 1 \<le> atoi t \<and> atoi t \<le> 4 \<longrightarrow>
            f_cutoff (filt (ch (G (st_out (process_command w st cmd))) ! nat (atoi t - 1)))
              = fmaxf 20 (atof x)
            \<and> f_q (filt (ch (G (st_out (process_command w st cmd))) ! nat (atoi t - 1)))
              = fmaxf 0.1 (atof y))
       \<and> (0 \<le> v \<and> v \<le> 1 \<longrightarrow> chans_in_range (snd (osc_handle_mapped (G st) path v)))
       \<and> prev_q (svf_update_coeffs f) = clampf (f_q f) 0.1 20
       \<and> 0.1 \<le> prev_q (svf_update_coeffs f) \<and> prev_q (svf_update_coeffs f) \<le> 20"
  using process_command_in_range [OF ok inr] cmd_ch_gain [OF _ _ _ ok] cmd_ch_pan [OF _ _ _ ok]
    cmd_ch_filter [OF _ _ _ ok] osc_handle_mapped_in_range [OF ok inr]
  by (simp add: svf_update_coeffs_q clampf_def)

lemma chans_in_range_demo: "chans_in_range (G sys_demo)"
  by (simp add: chans_in_range_def sys_demo_def engine_init_def NUM_CHANNELS_def chan_in_range_def
        channel_init_def svf_init_def list_all_iff)

lemma ch_demo: "length (ch (G sys_demo)) = 4" "ch (G sys_demo) ! 0 = channel_init 48000"
  by (simp_all add: sys_demo_def engine_init_def NUM_CHANNELS_def)

text \<open>
  Claim C1 as stated fails: \<^verbatim>\<open>CH 1 FILTER 1 1000 100\<close> stores Q = 100, above 20;
  \<^verbatim>\<open>CH 1 FILTER 1 5 1\<close> stores the cutoff 20, which is not above 20; and the OSC handler
  stores pan 9 for \<^verbatim>\<open>PAN_1\<close> with argument 5 and gain -3 for \<^verbatim>\<open>VOLUME_1\<close> with argument -3.
\<close>

theorem writers_clamp_counterexample:
  "\<not> f_q (filt (ch (G (st_out (process_command world_demo sys_demo ''CH 1 FILTER 1 1000 100''))) ! 0)) \<le> 20
   \<and> \<not> 20 < f_cutoff (filt (ch (G (st_out (process_command world_demo sys_demo ''CH 1 FILTER 1 5 1''))) ! 0))
   \<and> \<not> c_pan (ch (snd (osc_handle_mapped (G sys_demo) ''/midi/mapped/a/PAN_1'' 5)) ! 0) \<le> 1
   \<and> \<not> 0 \<le> c_gain (ch (snd (osc_handle_mapped (G sys_demo) ''/midi/mapped/a/VOLUME_1'' (- 3))) ! 0)"
proof -
  have t1: "tokenize ''CH 1 FILTER 1 1000 100'' = ''CH'' # ''1'' # ''FILTER'' # ''1'' # ''1000'' # ''100'' # []"
    and t2: "tokenize ''CH 1 FILTER 1 5 1'' = ''CH'' # ''1'' # ''FILTER'' # ''1'' # ''5'' # ''1'' # []"
    by (simp_all add: tokenize_def is_delim_def)
  have a: "atoi ''1'' = 1" "atof ''100'' = 100" "atof ''5'' = 5"
    by (simp_all add: libc_eval)
  have q: "f_q (filt (ch (G (st_out (process_command world_demo sys_demo ''CH 1 FILTER 1 1000 100''))) ! 0)) = 100"
    using cmd_ch_filter [OF t1 _ _ engine_ok_demo, of world_demo] by (simp add: a fmaxf_def)
  have c: "f_cutoff (filt (ch (G (st_out (process_command world_demo sys_demo ''CH 1 FILTER 1 5 1''))) ! 0)) = 20"
    using cmd_ch_filter [OF t2 _ _ engine_ok_demo, of world_demo] by (simp add: a fmaxf_def)
  have s1: "scan_mapped ''/midi/mapped/a/PAN_1'' = Some (''a'', ''PAN_1'')"
    and s2: "scan_mapped ''/midi/mapped/a/VOLUME_1'' = Some (''a'', ''VOLUME_1'')"
    by (simp_all add: scan_mapped_def isspace_def Let_def)
  have p: "c_pan (ch (snd (osc_handle_mapped (G sys_demo) ''/midi/mapped/a/PAN_1'' 5)) ! 0) = 9"
    by (simp add: osc_handle_mapped_def s1 ch_demo)
  have g: "c_gain (ch (snd (osc_handle_mapped (G sys_demo) ''/midi/mapped/a/VOLUME_1'' (- 3))) ! 0) = - 3"
    by (simp add: osc_handle_mapped_def s2 ch_demo)
  show ?thesis
    by (simp add: q c p g)
qed

theorem writers_clamp_witness:
  "engine_ok (G sys_demo) \<and> chans_in_range (G sys_demo)
   \<and> c_pan (ch (G (st_out (process_command world_demo sys_demo ''CH 1 PAN 5''))) ! 0) = 1
   \<and> c_gain (ch (G (st_out (process_command world_demo sys_demo ''CH 2 GAIN -3''))) ! 1) = 0
   \<and> f_cutoff (filt (ch (G (st_out (process_command world_demo sys_demo ''CH 1 FILTER 1 5 0''))) ! 0)) = 20
   \<and> f_q (filt (ch (G (st_out (process_command world_demo sys_demo ''CH 1 FILTER 1 5 0''))) ! 0)) = 1 / 10
   \<and> chans_in_range (snd (osc_handle_mapped (G sys_demo) ''/midi/mapped/a/PAN_1'' 1))
   \<and> chans_in_range (G (st_out (process_command world_demo sys_demo ''CH 1 FILTER 1 5 0'')))"
proof -
  have t1: "tokenize ''CH 1 PAN 5'' = ''CH'' # ''1'' # ''PAN'' # ''5'' # []"
    and t2: "tokenize ''CH 2 GAIN -3'' = ''CH'' # ''2'' # ''GAIN'' # ''-3'' # []"
    and t3: "tokenize ''CH 1 FILTER 1 5 0'' = ''CH'' # ''1'' # ''FILTER'' # ''1'' # ''5'' # ''0'' # []"
    by (simp_all add: tokenize_def is_delim_def)
  have a: "atoi ''1'' = 1" "atoi ''2'' = 2" "atof ''5'' = 5" "atof ''-3'' = - 3" "atof ''0'' = 0"
    by (simp_all add: libc_eval)
  show ?thesis
    using writers_clamp [OF engine_ok_demo chans_in_range_demo,
            where w = world_demo and cmd = "''CH 1 PAN 5''" and t = "''1''" and x = "''5''" and rest = "[]"]
      writers_clamp [OF engine_ok_demo chans_in_range_demo,
            where w = world_demo and cmd = "''CH 2 GAIN -3''" and t = "''2''" and x = "''-3''" and rest = "[]"]
      writers_clamp [OF engine_ok_demo chans_in_range_demo,
            where w = world_demo and cmd = "''CH 1 FILTER 1 5 0''" and t = "''1''" and ty = "''1''"
              and x = "''5''" and y = "''0''" and rest = "[]" and v = 1 and path = "''/midi/mapped/a/PAN_1''"]
    by (simp add: t1 t2 t3 a engine_ok_demo chans_in_range_demo clampf_def fmaxf_def)
qed

subsection \<open>Synth voice: duty cycle after one spike\<close>

lemma voice_tick_fields:
  assumes "on v \<noteq> 0"
  shows "on (snd (voice_tick v)) = on v" "tauA (snd (voice_tick v)) = tauA v"
    "tauB (snd (voice_tick v)) = tauB v" "v_sr (snd (voice_tick v)) = v_sr v"
    "dutyBias (snd (voice_tick v)) = dutyBias v" "spikes (snd (voice_tick v)) = 0"
    "Astate (snd (voice_tick v))
       = (Astate v + (if sint (spikes v) > 0 then real_of_int (sint (spikes v)) else 0)) * decay_a v"
    "Bstate (snd (voice_tick v))
       = (Bstate v + (if sint (spikes v) > 0 then real_of_int (sint (spikes v)) else 0)) * decay_b v"
  using assms
  by (simp_all add: voice_tick_def voice_drain_def voice_decay_def Let_def decay_a_def decay_b_def)

lemma decay_fields:
  assumes "on v \<noteq> 0"
  shows "decay_a (snd (voice_tick v)) = decay_a v" "decay_b (snd (voice_tick v)) = decay_b v"
  using voice_tick_fields [OF assms] by (simp_all add: decay_a_def decay_b_def)

lemma voice_ticks_quiet:
  assumes "on v \<noteq> 0" "spikes v = 0"
  shows "Astate (voice_ticks n v) = Astate v * decay_a v ^ n
       \<and> Bstate (voice_ticks n v) = Bstate v * decay_b v ^ n
       \<and> dutyBias (voice_ticks n v) = dutyBias v"
  using assms
proof (induction n arbitrary: v)
  case 0
  then show ?case by simp
next
  case (Suc n)
  let ?v1 = "snd (voice_tick v)"
  have on1: "on ?v1 \<noteq> 0" and sp1: "spikes ?v1 = 0"
    using voice_tick_fields [OF Suc.prems(1)] Suc.prems(1) by simp_all
  from Suc.IH [OF on1 sp1] show ?case
    using voice_tick_fields [OF Suc.prems(1)] decay_fields [OF Suc.prems(1)] Suc.prems(2)
    by (simp add: mult.assoc)
qed

lemma voice_ticks_one_spike:
  assumes on: "on v \<noteq> 0" and sp: "spikes v = 1" and rest: "Astate v = 0" "Bstate v = 0"
  shows "Astate (voice_ticks (Suc n) v) = decay_a v ^ Suc n
       \<and> Bstate (voice_ticks (Suc n) v) = decay_b v ^ Suc n
       \<and> dutyBias (voice_ticks (Suc n) v) = dutyBias v"
proof -
  let ?v1 = "snd (voice_tick v)"
  have on1: "on ?v1 \<noteq> 0" and sp1: "spikes ?v1 = 0"
    using voice_tick_fields [OF on] on by simp_all
  have s: "sint (spikes v) = 1"
    by (simp add: sp)
  show ?thesis
    using voice_ticks_quiet [OF on1 sp1, of n] voice_tick_fields [OF on] decay_fields [OF on] rest
    by (simp add: s)
qed

lemma decay_bounds:
  assumes sr: "0 < v_sr v" and tau: "tauA v < tauB v"
  shows "0 < decay_a v" "decay_a v \<le> decay_b v" "decay_b v < 1"
proof -
  let ?ta = "fmaxf (1 / 10000) (tauA v)" and ?tb = "fmaxf (1 / 10000) (tauB v)"
  have ta: "0 < ?ta" and tb: "0 < ?tb" and le: "?ta \<le> ?tb"
    using tau by (simp_all add: fmaxf_def)
  show "0 < decay_a v" by (simp add: decay_a_def)
  have "0 < ?tb * v_sr v" using tb sr by simp
  then show "decay_b v < 1" by (simp add: decay_b_def)
  have "?ta * v_sr v \<le> ?tb * v_sr v" using le sr by simp
  moreover have "0 < ?ta * v_sr v" using ta sr by simp
  ultimately have "1 / (?tb * v_sr v) \<le> 1 / (?ta * v_sr v)"
    by (simp add: frac_le)
  then show "decay_a v \<le> decay_b v"
    by (simp add: decay_a_def decay_b_def)
qed

lemma clamp_dev:
  fixes a b \<beta> :: real
  assumes "a \<le> b" "0.01 \<le> \<beta>" "\<beta> \<le> 0.99"
  shows "\<bar>clampf (\<beta> + 0.25 * (a - b)) 0.01 0.99 - \<beta>\<bar> = min (\<beta> - 0.01) (0.25 * (b - a))"
proof -
  have dec: "(0.25::real) = 1 / 4" "(0.01::real) = 1 / 100" "(0.99::real) = 99 / 100"
    by simp_all
  have bias: "1 / 100 \<le> \<beta>" "\<beta> \<le> 99 / 100"
    using assms by simp_all
  have "\<bar>clampf (\<beta> + 1 / 4 * (a - b)) (1 / 100) (99 / 100) - \<beta>\<bar>
          = min (\<beta> - 1 / 100) (1 / 4 * (b - a))"
    using assms(1) bias unfolding clampf_def by argo
  then show ?thesis
    by (simp only: dec)
qed

lemma duty_dev_formula:
  assumes on: "on v \<noteq> 0" and sp: "spikes v = 1" and rest: "Astate v = 0" "Bstate v = 0"
    and sr: "0 < v_sr v" and tau: "tauA v < tauB v"
    and bias: "0.01 \<le> dutyBias v" "dutyBias v \<le> 0.99"
  shows "duty_dev (Suc n) v
           = min (dutyBias v - 0.01) (0.25 * (decay_b v ^ Suc n - decay_a v ^ Suc n))"
proof -
  note b = decay_bounds [OF sr tau]
  have ab: "decay_a v ^ Suc n \<le> decay_b v ^ Suc n"
    using b by (intro power_mono) auto
  have "voice_duty (voice_ticks (Suc n) v)
          = clampf (dutyBias v + 0.25 * (decay_a v ^ Suc n - decay_b v ^ Suc n)) 0.01 0.99"
    using voice_ticks_one_spike [OF on sp rest, of n]
    by (simp only: voice_duty_def)
  then show ?thesis
    using clamp_dev [OF ab bias] by (simp only: duty_dev_def)
qed

lemma duty_dev_start:
  assumes rest: "Astate v = 0" "Bstate v = 0" and bias: "0.01 \<le> dutyBias v" "dutyBias v \<le> 0.99"
  shows "duty_dev 0 v = 0"
  using assms by (simp add: duty_dev_def voice_duty_def clampf_def)

lemma pow_diff_eventually_decreasing:
  fixes a b :: real
  assumes a: "0 < a" and ab: "a \<le> b" and b: "b < 1"
  shows "\<exists>N. \<forall>n\<ge>N. b ^ Suc n - a ^ Suc n \<le> b ^ n - a ^ n"
proof (cases "a = b")
  case True
  then show ?thesis by simp
next
  case False
  with ab have lt: "a < b" by simp
  have b0: "0 < b" using a ab by simp
  define r where "r = a / b"
  define c where "c = (1 - b) / (1 - a)"
  have r: "0 \<le> r" "r < 1"
    using a b0 lt by (simp_all add: r_def)
  have c: "0 < c"
    using a ab b by (simp add: c_def)
  have "(\<lambda>n. r ^ n) \<longlonglongrightarrow> 0"
    using r by (rule LIMSEQ_realpow_zero)
  then have "eventually (\<lambda>n. r ^ n < c) sequentially"
    using c by (rule order_tendstoD(2))
  then obtain N where N: "\<forall>n\<ge>N. r ^ n < c"
    by (auto simp: eventually_sequentially)
  have step: "b ^ Suc n - a ^ Suc n \<le> b ^ n - a ^ n" if "N \<le> n" for n
  proof -
    have rn: "r ^ n \<le> c" using N that by (simp add: less_imp_le)
    have an: "a ^ n = r ^ n * b ^ n"
      using b0 by (simp add: r_def power_divide)
    have "a ^ n * (1 - a) = r ^ n * (b ^ n * (1 - a))"
      by (simp add: an)
    also have "\<dots> \<le> c * (b ^ n * (1 - a))"
      using rn b0 a ab b by (intro mult_right_mono) simp_all
    also have "\<dots> = b ^ n * (1 - b)"
      using a ab b by (simp add: c_def)
    finally have "a ^ n * (1 - a) \<le> b ^ n * (1 - b)" .
    then show ?thesis by (simp add: algebra_simps)
  qed
  then show ?thesis by blast
qed

lemma pow_diff_tendsto_0:
  fixes a b :: real
  assumes a: "0 < a" and ab: "a \<le> b" and b: "b < 1"
  shows "(\<lambda>n. 0.25 * (b ^ n - a ^ n)) \<longlonglongrightarrow> 0"
proof -
  have "(\<lambda>n. b ^ n) \<longlonglongrightarrow> 0"
    using a ab b by (intro LIMSEQ_realpow_zero [of b]) simp_all
  moreover have "(\<lambda>n. a ^ n) \<longlonglongrightarrow> 0"
    using a ab b by (intro LIMSEQ_realpow_zero [of a]) simp_all
  ultimately have "(\<lambda>n. b ^ n - a ^ n) \<longlonglongrightarrow> 0 - 0"
    by (rule tendsto_diff)
  then have "(\<lambda>n. 0.25 * (b ^ n - a ^ n)) \<longlonglongrightarrow> 0.25 * (0 - 0)"
    by (rule tendsto_mult_left)
  then show ?thesis by simp
qed

text \<open>With \<open>tauB * sr\<close> at most \<open>2^23\<close> the exact factor \<open>db\<close> lies at least one binary32 step
  below 1, so that its rounding to binary32 is below 1 as well.\<close>

lemma decay_b_below_one:
  assumes sr: "0 < v_sr v" and bound: "fmaxf (1 / 10000) (tauB v) * v_sr v \<le> 2 ^ 23"
  shows "decay_b v \<le> 1 - 1 / 2 ^ 24"
proof -
  let ?p = "fmaxf (1 / 10000) (tauB v) * v_sr v"
  have p: "0 < ?p"
    using sr by (simp add: fmaxf_def)
  have "1 / 2 ^ 23 \<le> 1 / ?p"
    using p bound by (intro divide_left_mono) simp_all
  then have "- 1 / ?p \<le> - (1 / 2 ^ 23)"
    by simp
  then have "decay_b v \<le> exp (- (1 / 2 ^ 23))"
    by (simp add: decay_b_def)
  also have "\<dots> = inverse (exp (1 / 2 ^ 23))"
    by (rule exp_minus)
  also have "\<dots> \<le> inverse (1 + 1 / 2 ^ 23)"
    using exp_ge_add_one_self [of "1 / 2 ^ 23"] by (intro le_imp_inverse_le) simp_all
  also have "\<dots> \<le> 1 - 1 / 2 ^ 24"
    by simp
  finally show ?thesis .
qed

text \<open>
  Claim C5, as amended. In exact arithmetic (the float operations of \<^verbatim>\<open>voice_tick\<close> taken on
  real numbers), for a voice that is on and at rest (both registers 0), with a sample rate
  above 0, \<open>tauA < tauB\<close>, \<open>tauB * sr\<close> at most \<open>2^23\<close> (\<open>tauB\<close> after its floor clamp) and a duty
  bias within \<open>[0.01, 0.99]\<close>, that receives exactly one spike: the factor \<open>db\<close> is at most
  \<open>1 - 2^-24\<close>; the duty cycle of tick \<open>n \<ge> 1\<close> lies below the bias by
  \<open>min (bias - 0.01) (0.25 * (db^n - da^n))\<close>; this deviation tends to 0 as the number of
  ticks grows; and from some tick on it never increases from one tick to the next.
\<close>

theorem duty_deviation_decays:
  assumes on: "on v \<noteq> 0" and sp: "spikes v = 1" and rest: "Astate v = 0" "Bstate v = 0"
    and sr: "0 < v_sr v" and tau: "tauA v < tauB v"
    and bias: "0.01 \<le> dutyBias v" "dutyBias v \<le> 0.99"
    and bound: "fmaxf (1 / 10000) (tauB v) * v_sr v \<le> 2 ^ 23"
  shows "decay_b v \<le> 1 - 1 / 2 ^ 24
       \<and> (\<forall>n. duty_dev (Suc n) v
                = min (dutyBias v - 0.01) (0.25 * (decay_b v ^ Suc n - decay_a v ^ Suc n)))
       \<and> (\<lambda>n. duty_dev n v) \<longlonglongrightarrow> 0
       \<and> (\<exists>N. \<forall>n\<ge>N. duty_dev (Suc n) v \<le> duty_dev n v)"
proof (intro conjI)
  show "decay_b v \<le> 1 - 1 / 2 ^ 24"
    by (rule decay_b_below_one [OF sr bound])
  note b = decay_bounds [OF sr tau]
  note f = duty_dev_formula [OF on sp rest sr tau bias]
  show "\<forall>n. duty_dev (Suc n) v
                = min (dutyBias v - 0.01) (0.25 * (decay_b v ^ Suc n - decay_a v ^ Suc n))"
    using f by blast
  have pw: "decay_a v ^ n \<le> decay_b v ^ n" for n
    using b by (intro power_mono) auto
  have f0: "duty_dev n v = min (dutyBias v - 0.01) (0.25 * (decay_b v ^ n - decay_a v ^ n))" for n
  proof (cases n)
    case 0
    then show ?thesis using duty_dev_start [OF rest bias] bias by simp
  next
    case (Suc m)
    then show ?thesis using f [of m] by simp
  qed
  have lo: "0 \<le> duty_dev n v" for n
    by (simp add: duty_dev_def)
  have hi: "duty_dev n v \<le> 0.25 * (decay_b v ^ n - decay_a v ^ n)" for n
    unfolding f0 by (rule min.cobounded2)
  have e1: "eventually (\<lambda>n. 0 \<le> duty_dev n v) sequentially"
    using lo by (intro always_eventually allI)
  have e2: "eventually (\<lambda>n. duty_dev n v \<le> 0.25 * (decay_b v ^ n - decay_a v ^ n)) sequentially"
    using hi by (intro always_eventually allI)
  show "(\<lambda>n. duty_dev n v) \<longlonglongrightarrow> 0"
    by (rule tendsto_sandwich [OF e1 e2 tendsto_const pow_diff_tendsto_0 [OF b]])
  obtain N where N: "\<forall>n\<ge>N. decay_b v ^ Suc n - decay_a v ^ Suc n \<le> decay_b v ^ n - decay_a v ^ n"
    using pow_diff_eventually_decreasing [OF b] by blast
  have "duty_dev (Suc n) v \<le> duty_dev n v" if "N \<le> n" for n
  proof -
    have "decay_b v ^ Suc n - decay_a v ^ Suc n \<le> decay_b v ^ n - decay_a v ^ n"
      using N that by blast
    then have "0.25 * (decay_b v ^ Suc n - decay_a v ^ Suc n) \<le> 0.25 * (decay_b v ^ n - decay_a v ^ n)"
      by (rule mult_left_mono) simp
    then have "min (dutyBias v - 0.01) (0.25 * (decay_b v ^ Suc n - decay_a v ^ Suc n))
                 \<le> min (dutyBias v - 0.01) (0.25 * (decay_b v ^ n - decay_a v ^ n))"
      by (rule min.mono [OF order_refl])
    then show ?thesis
      by (simp only: f0 [symmetric])
  qed
  then show "\<exists>N. \<forall>n\<ge>N. duty_dev (Suc n) v \<le> duty_dev n v"
    by blast
qed

lemma voice_spiked_hyps:
  "on voice_spiked \<noteq> 0" "spikes voice_spiked = 1" "Astate voice_spiked = 0" "Bstate voice_spiked = 0"
  "0 < v_sr voice_spiked" "tauA voice_spiked < tauB voice_spiked"
  "0.01 \<le> dutyBias voice_spiked" "dutyBias voice_spiked \<le> 0.99"
  by (simp_all add: voice_spiked_def voice_init_def)

lemma voice_spiked_bound:
  "fmaxf (1 / 10000) (tauB voice_spiked) * v_sr voice_spiked \<le> 2 ^ 23"
  by (simp add: voice_spiked_def voice_init_def fmaxf_def)

lemma voice_spiked_decay:
  "decay_a voice_spiked = exp (- 1 / 240)" "decay_b voice_spiked = exp (- 1 / 960)"
  by (simp_all add: decay_a_def decay_b_def voice_spiked_def voice_init_def fmaxf_def)

theorem duty_deviation_decays_witness:
  "on voice_spiked \<noteq> 0 \<and> spikes voice_spiked = 1 \<and> Astate voice_spiked = 0 \<and> Bstate voice_spiked = 0
   \<and> 0 < v_sr voice_spiked \<and> tauA voice_spiked < tauB voice_spiked
   \<and> 0.01 \<le> dutyBias voice_spiked \<and> dutyBias voice_spiked \<le> 0.99
   \<and> fmaxf (1 / 10000) (tauB voice_spiked) * v_sr voice_spiked \<le> 2 ^ 23
   \<and> decay_b voice_spiked \<le> 1 - 1 / 2 ^ 24
   \<and> duty_dev 1 voice_spiked = min (49 / 100) (1 / 4 * (exp (- 1 / 960) - exp (- 1 / 240)))
   \<and> (\<lambda>n. duty_dev n voice_spiked) \<longlonglongrightarrow> 0
   \<and> (\<exists>N. \<forall>n\<ge>N. duty_dev (Suc n) voice_spiked \<le> duty_dev n voice_spiked)"
proof -
  note T = duty_deviation_decays [OF voice_spiked_hyps voice_spiked_bound]
  from T have "duty_dev (Suc 0) voice_spiked
      = min (dutyBias voice_spiked - 0.01) (0.25 * (decay_b voice_spiked ^ Suc 0 - decay_a voice_spiked ^ Suc 0))"
    by blast
  then have d1: "duty_dev 1 voice_spiked = min (49 / 100) (1 / 4 * (exp (- 1 / 960) - exp (- 1 / 240)))"
    by (simp add: voice_spiked_decay) (simp add: voice_spiked_def voice_init_def)
  show ?thesis
    by (intro conjI voice_spiked_hyps voice_spiked_bound d1 T [THEN conjunct1]
          T [THEN conjunct2, THEN conjunct2, THEN conjunct1]
          T [THEN conjunct2, THEN conjunct2, THEN conjunct2])
qed

text \<open>
  Claim C5 as stated (the deviation is no larger than on the previous tick on every tick
  after the one that applied the spike) fails: for the voice at its initial settings
  (\<open>tauA = 0.005 < tauB = 0.020\<close>, 48 kHz), the first tick applies the spike and the second
  tick's duty cycle is farther from the bias than the first tick's.
\<close>

theorem duty_deviation_counterexample:
  "tauA voice_spiked < tauB voice_spiked \<and> duty_dev 1 voice_spiked < duty_dev 2 voice_spiked"
proof -
  let ?a = "exp (- 1 / 240) :: real" and ?b = "exp (- 1 / 960) :: real"
  have dec: "(0.25::real) = 1 / 4"
    by simp
  have bias: "dutyBias voice_spiked - 0.01 = 49 / 100"
    by (simp add: voice_spiked_def voice_init_def)
  have f: "duty_dev (Suc n) voice_spiked = min (49 / 100) (1 / 4 * (?b ^ Suc n - ?a ^ Suc n))" for n
    using duty_dev_formula [OF voice_spiked_hyps, of n] by (simp only: voice_spiked_decay bias dec)
  have small: "1 / 4 * (?b ^ k - ?a ^ k) \<le> 49 / 100" for k
  proof -
    have "0 < ?a ^ k" by simp
    moreover have "?b ^ k \<le> 1" by (simp add: power_le_one)
    ultimately show ?thesis by argo
  qed
  have d: "duty_dev (Suc n) voice_spiked = 1 / 4 * (?b ^ Suc n - ?a ^ Suc n)" for n
    unfolding f by (rule min_absorb2) (rule small)
  have "1 + (- 1 / 240) \<le> ?a"
    by (rule exp_ge_add_one_self)
  then have a_lo: "239 / 240 \<le> ?a" by simp
  have "1 + (- 1 / 960) \<le> ?b"
    by (rule exp_ge_add_one_self)
  then have b_lo: "959 / 960 \<le> ?b" by simp
  have ab: "?a < ?b" by simp
  have "(?b - ?a) * 1 < (?b - ?a) * (?b + ?a)"
    using ab a_lo b_lo by (intro mult_strict_left_mono) argo+
  also have "\<dots> = ?b * ?b - ?a * ?a"
    by (simp add: algebra_simps)
  finally have grow: "?b ^ Suc 0 - ?a ^ Suc 0 < ?b ^ Suc (Suc 0) - ?a ^ Suc (Suc 0)"
    by simp
  then have "1 / 4 * (?b ^ Suc 0 - ?a ^ Suc 0) < 1 / 4 * (?b ^ Suc (Suc 0) - ?a ^ Suc (Suc 0))"
    by (intro mult_strict_left_mono) simp_all
  then have "duty_dev (Suc 0) voice_spiked < duty_dev (Suc (Suc 0)) voice_spiked"
    by (simp only: d)
  then show ?thesis
    using voice_spiked_hyps(6) by (simp add: numeral_2_eq_2)
qed

subsection \<open>Invariants of the engine state\<close>

text \<open>The array sizes and the buffer invariant of the sample slots hold for the initial
  engine and are kept by every command and by every slot tick.\<close>

lemma G_reply: "G (st_out (reply st txt)) = G st"
  by (simp add: reply_def)

lemma G_reply_broadcast: "G (st_out (reply_broadcast w st txt ev)) = G st"
  by (simp add: reply_broadcast_def srv_broadcast_eq)

lemma engine_ok_set:
  "engine_ok (G (set_ch st i c)) = engine_ok (G st)"
  "engine_ok (G (set_voice st i v)) = engine_ok (G st)"
  "engine_ok (G (set_slot st i s)) = engine_ok (G st)"
  "engine_ok (E\<lparr> masterGain := m \<rparr>) = engine_ok E"
  "engine_ok (G (st\<lparr> g_srv := srv \<rparr>)) = engine_ok (G st)"
  by (simp_all add: engine_ok_def set_ch_def set_voice_def set_slot_def)

lemmas G_simps = G_reply G_reply_broadcast engine_ok_set

lemma cmd_master_engine_ok: "engine_ok (G (st_out (cmd_master w st tokens))) = engine_ok (G st)"
  by (simp add: cmd_master_def Let_def G_simps)

lemma cmd_ch_engine_ok: "engine_ok (G (st_out (cmd_ch w st tokens))) = engine_ok (G st)"
  by (simp add: cmd_ch_def Let_def G_simps)

lemma cmd_voice_engine_ok: "engine_ok (G (st_out (cmd_voice w st tokens))) = engine_ok (G st)"
  by (simp add: cmd_voice_def Let_def G_simps)

lemma cmd_sample_engine_ok: "engine_ok (G (st_out (cmd_sample w st tokens))) = engine_ok (G st)"
  by (simp add: cmd_sample_def Let_def G_simps case_prod_beta split: option.splits)

lemma process_command_engine_ok:
  "engine_ok (G (st_out (process_command w st cmd))) = engine_ok (G st)"
  by (simp add: process_command_def Let_def G_simps cmd_master_engine_ok cmd_ch_engine_ok
        cmd_voice_engine_ok cmd_sample_engine_ok)

lemma slots_set:
  "slots (G (set_ch st i c)) = slots (G st)"
  "slots (G (set_voice st i v)) = slots (G st)"
  "slots (G (set_slot st i s)) = (slots (G st))[i := s]"
  by (simp_all add: set_ch_def set_voice_def set_slot_def)

lemma slot_ok_fields:
  "slot_ok (s\<lparr> playing := a \<rparr>) = slot_ok s" "slot_ok (s\<lparr> pos := b \<rparr>) = slot_ok s"
  "slot_ok (s\<lparr> s_gain := g \<rparr>) = slot_ok s" "slot_ok (s\<lparr> s_assignedCh := c \<rparr>) = slot_ok s"
  "slot_ok (s\<lparr> loop := l \<rparr>) = slot_ok s"
  by (simp_all add: slot_ok_def split: option.splits)

lemma slot_tick_ok: "slot_ok s \<Longrightarrow> slot_tick s = Some (y, s') \<Longrightarrow> slot_ok s'"
  by (auto simp: slot_tick_def slot_emit_def slot_ok_fields Let_def split: if_splits option.splits)

lemma cmd_sample_slots_ok:
  assumes ok: "engine_ok (G st)" and inv: "list_all slot_ok (slots (G st))"
  shows "list_all slot_ok (slots (G (st_out (cmd_sample w st tokens))))"
proof -
  let ?i = "nat (atoi (tokens ! 1) - 1)"
  have S: "1 \<le> atoi (tokens ! 1) \<Longrightarrow> atoi (tokens ! 1) \<le> 16 \<Longrightarrow> slot_ok (slots (G st) ! ?i)"
    using ok inv list_all_nth [of slot_ok "slots (G st)" ?i]
    by (simp add: engine_ok_def NUM_SLOTS_def)
  have upd: "slot_ok s \<Longrightarrow> list_all slot_ok ((slots (G st))[i := s])" for i s
    using inv by (simp add: list_all_update)
  show ?thesis
    using inv S
    by (simp add: cmd_sample_def Let_def NUM_SLOTS_def G_reply G_reply_broadcast slots_set upd
          slot_ok_fields slot_load_path_ok case_prod_beta split: option.splits)
qed

lemma process_command_slots_ok:
  assumes ok: "engine_ok (G st)" and inv: "list_all slot_ok (slots (G st))"
  shows "list_all slot_ok (slots (G (st_out (process_command w st cmd))))"
proof -
  have m: "slots (G (st_out (cmd_master w st tokens))) = slots (G st)" for tokens
    by (simp add: cmd_master_def Let_def G_reply G_reply_broadcast)
  have c: "slots (G (st_out (cmd_ch w st tokens))) = slots (G st)" for tokens
    by (simp add: cmd_ch_def Let_def G_reply G_reply_broadcast slots_set)
  have v: "slots (G (st_out (cmd_voice w st tokens))) = slots (G st)" for tokens
    by (simp add: cmd_voice_def Let_def G_reply G_reply_broadcast slots_set)
  show ?thesis
    using inv cmd_sample_slots_ok [OF ok inv]
    by (simp add: process_command_def Let_def G_reply m c v)
qed

lemma engine_init_ok:
  "engine_ok (engine_init sr0 frames)" "list_all slot_ok (slots (engine_init sr0 frames))"
  by (simp_all add: engine_ok_def engine_init_def list_all_iff slot_ok_def slot_init_def)

subsection \<open>Sample slot playback on an empty buffer\<close>

lemma sample_load_step:
  assumes tok: "tokenize cmd = ''SAMPLE'' # t # ''LOAD'' # p # ps"
    and si: "atoi t = si" "1 \<le> si" "si \<le> 16"
    and path: "join_path [] True (p # ps) = Some path"
  shows "slots (G (st_out (process_command w st cmd)))
           = (slots (G st))[nat (si - 1) := snd (slot_load_path (slots (G st) ! nat (si - 1)) (decoder w path))]"
proof -
  have pc: "process_command w st cmd = cmd_sample w st (''SAMPLE'' # t # ''LOAD'' # p # ps)"
    by (simp add: process_command_def tok Let_def)
  show ?thesis
    using si
    by (simp add: pc cmd_sample_def Let_def NUM_SLOTS_def G_reply slots_set path case_prod_beta
          del: join_path.simps)
qed

lemma sample_loop_step:
  assumes tok: "tokenize cmd = ''SAMPLE'' # t # ''LOOP'' # x # rest"
    and si: "atoi t = si" "1 \<le> si" "si \<le> 16"
  shows "slots (G (st_out (process_command w st cmd)))
           = (slots (G st))[nat (si - 1) :=
                (slots (G st) ! nat (si - 1))\<lparr> loop := (if atoi x \<noteq> 0 then 1 else 0) \<rparr>]"
proof -
  have pc: "process_command w st cmd = cmd_sample w st (''SAMPLE'' # t # ''LOOP'' # x # rest)"
    by (simp add: process_command_def tok Let_def)
  show ?thesis
    using si by (simp add: pc cmd_sample_def Let_def NUM_SLOTS_def G_reply slots_set)
qed

lemma sample_trig_step:
  assumes tok: "tokenize cmd = ''SAMPLE'' # t # ''TRIG'' # rest"
    and si: "atoi t = si" "1 \<le> si" "si \<le> 16"
    and ld: "loaded (slots (G st) ! nat (si - 1)) \<noteq> 0"
  shows "slots (G (st_out (process_command w st cmd)))
           = (slots (G st))[nat (si - 1) := (slots (G st) ! nat (si - 1))\<lparr> playing := 1, pos := 0 \<rparr>]"
proof -
  have pc: "process_command w st cmd = cmd_sample w st (''SAMPLE'' # t # ''TRIG'' # rest)"
    by (simp add: process_command_def tok Let_def)
  show ?thesis
    using si ld by (simp add: pc cmd_sample_def Let_def NUM_SLOTS_def G_reply_broadcast slots_set)
qed

lemma slot_empty_loop_eq:
  "slot_empty_loop = \<lparr> s_assignedCh = 0, loaded = 1, playing = 1, loop = 1, s_gain = 1,
     data = Some [], s_length = 0, pos = 0, haveDecoder = 1 \<rparr>"
proof -
  let ?c1 = "''SAMPLE 1 LOAD /tmp/empty.wav''" and ?c2 = "''SAMPLE 1 LOOP 1''" and ?c3 = "''SAMPLE 1 TRIG''"
  let ?st1 = "st_out (process_command world_empty sys_demo ?c1)"
  let ?st2 = "st_out (process_command world_empty ?st1 ?c2)"
  let ?st3 = "st_out (process_command world_empty ?st2 ?c3)"
  let ?L = "\<lparr> s_assignedCh = 0, loaded = 1, playing = 0, loop = 0, s_gain = 1,
              data = Some [], s_length = 0, pos = 0, haveDecoder = 1 \<rparr>"
  have t1: "tokenize ?c1 = ''SAMPLE'' # ''1'' # ''LOAD'' # ''/tmp/empty.wav'' # []"
    and t2: "tokenize ?c2 = ''SAMPLE'' # ''1'' # ''LOOP'' # ''1'' # []"
    and t3: "tokenize ?c3 = ''SAMPLE'' # ''1'' # ''TRIG'' # []"
    by (simp_all add: tokenize_def is_delim_def)
  have a1: "atoi ''1'' = 1"
    by (simp add: libc_eval)
  have p: "join_path [] True [''/tmp/empty.wav''] = Some ''/tmp/empty.wav''"
    by simp
  have d: "decoder world_empty ''/tmp/empty.wav'' = decoder_empty"
    by (simp add: world_empty_def)
  have S0: "slots (G sys_demo) ! 0 = slot_init"
    by (simp add: sys_demo_def)
  have load: "snd (slot_load_path slot_init decoder_empty) = ?L"
    by (simp add: slot_load_path_def slot_free_eq Let_def decoder_empty_def slot_init_def downmix_def)
  have len0: "0 < length (slots (G st))" if "engine_ok (G st)" for st :: sys
    using that by (simp add: engine_ok_def NUM_SLOTS_def)
  have ok1: "engine_ok (G ?st1)" and ok2: "engine_ok (G ?st2)"
    by (simp_all add: process_command_engine_ok engine_ok_demo)
  have s1: "slots (G ?st1) ! 0 = ?L"
    using sample_load_step [OF t1 a1 _ _ p, of world_empty sys_demo] len0 [OF engine_ok_demo]
    by (simp add: d S0 load)
  have s2: "slots (G ?st2) ! 0 = ?L\<lparr> loop := 1 \<rparr>"
    using sample_loop_step [OF t2 a1, of world_empty ?st1] len0 [OF ok1]
    by (simp add: s1 a1)
  have s3: "slots (G ?st3) ! 0 = ?L\<lparr> loop := 1, playing := 1, pos := 0 \<rparr>"
    using sample_trig_step [OF t3 a1, of ?st2 world_empty] len0 [OF ok2]
    by (simp add: s2)
  show ?thesis
    unfolding slot_empty_loop_def by (simp add: s3)
qed

text \<open>
  Claim C4 (for every slot state, a looping slot whose cursor has reached the length wraps
  the cursor to 0 and goes on producing buffer output on that tick) fails in the code at a
  state that three commands reach: after \<^verbatim>\<open>SAMPLE 1 LOAD\<close> of a file without frames,
  \<^verbatim>\<open>SAMPLE 1 LOOP 1\<close> and \<^verbatim>\<open>SAMPLE 1 TRIG\<close>, slot 1 is loaded, playing and looping with length 0
  and a buffer of 0 samples, it satisfies the buffer invariant, and \<^verbatim>\<open>slot_tick\<close> reads
  \<^verbatim>\<open>data[0]\<close>, which is outside the buffer: there is no sample for it to return.
\<close>

theorem slot_tick_empty_loop_reached:
  "loaded slot_empty_loop = 1 \<and> playing slot_empty_loop = 1 \<and> loop slot_empty_loop = 1
   \<and> s_length slot_empty_loop = 0 \<and> pos slot_empty_loop = 0 \<and> data slot_empty_loop = Some []
   \<and> slot_ok slot_empty_loop
   \<and> slot_tick slot_empty_loop = None"
  by (simp add: slot_empty_loop_eq slot_ok_def slot_tick_def slot_emit_def)

end
